theory Spec2Isabelle
  imports Complex_Main
begin

section \<open>Data model\<close>

text \<open>
  A ply angle is a Python int, a sequence a list of them. The scores of the rule
  evaluator are Python floats; they are modelled by the real numbers, so every
  statement below about a score is a statement about exact arithmetic (the float
  rounding of the interpreter is outside this development). Python's
  \<^verbatim>\<open>round(x, 2)\<close> is modelled by rounding the exact value to the nearest hundredth,
  half to even. The interpreter rounds the double it holds, which at a value of the form
  k/100 + 0.005 lies off the tie, so there the two can differ by one hundredth; the
  properties below use of the rounding only that it is monotone, that it fixes the
  hundredths and the values it takes on the samples, none of which is a tie.
\<close>

type_synonym angle = int
type_synonym sequence = "angle list"

datatype py_error =
    IndexError
  | KeyError string
  | ZeroDivisionError
  | ValueError
  | TargetExceedsParent angle int int
  | TargetNegative angle

text \<open>The class-level dictionary \<^verbatim>\<open>WEIGHTS\<close>, keys R1..R8.\<close>

record weights =
  R1 :: real
  R2 :: real
  R3 :: real
  R4 :: real
  R5 :: real
  R6 :: real
  R7 :: real
  R8 :: real

definition WEIGHTS :: weights where
  "WEIGHTS = \<lparr>R1 = 18, R2 = 12, R3 = 13, R4 = 12, R5 = 14, R6 = 41 / 2, R7 = 7 / 2, R8 = 7\<rparr>"

definition LATERAL_BENDING_THRESHOLD :: real where
  "LATERAL_BENDING_THRESHOLD = 20 / 100"

text \<open>
  The reason strings of the breakdown are Turkish text with format arguments; each
  message is a constructor carrying its arguments.
\<close>

datatype reason =
    NoReason
  | ExternalZero
  | AdjacentZeroNinety nat nat
  | ExternalNot45 nat angle
  | Asymmetry
  | Unbalanced45
  | PercentageOutside
  | ExternalNotIdeal
  | DistributionNotUniform
  | GroupCounts nat nat nat
  | Near45MidPlane
  | Near90MidPlane

record rule_entry =
  weight :: real
  score :: real
  penalty :: real
  reason :: reason

record breakdown =
  total_score :: real
  max_score :: real
  rules :: "(string \<times> rule_entry) list"

section \<open>Python primitives\<close>

text \<open>
  List indexing as Python does it: an index from \<open>- len\<close> to \<open>len - 1\<close> reads an
  element (a negative one from the end), any other raises.
\<close>

definition py_get :: "'a list \<Rightarrow> int \<Rightarrow> py_error + 'a" where
  "py_get xs i =
     (if 0 \<le> i \<and> i < int (length xs) then Inr (xs ! nat i)
      else if i < 0 \<and> - int (length xs) \<le> i then Inr (xs ! nat (int (length xs) + i))
      else Inl IndexError)"

definition round_half_even :: "real \<Rightarrow> int" where
  "round_half_even y =
     (let f = \<lfloor>y\<rfloor>; d = y - of_int f
      in if d < 1 / 2 then f else if 1 / 2 < d then f + 1
         else if even f then f else f + 1)"

definition py_round2 :: "real \<Rightarrow> real" where
  "py_round2 x = of_int (round_half_even (x * 100)) / 100"

text \<open>\<^verbatim>\<open>[i for i, x in enumerate(sequence) if P x]\<close>\<close>

definition indices_where :: "('a \<Rightarrow> bool) \<Rightarrow> 'a list \<Rightarrow> nat list" where
  "indices_where P xs = [i \<leftarrow> [0..<length xs]. P (xs ! i)]"

text \<open>\<^verbatim>\<open>numpy.diff\<close>, \<^verbatim>\<open>numpy.mean\<close> and \<^verbatim>\<open>numpy.std\<close> (population standard deviation).\<close>

fun np_diff :: "nat list \<Rightarrow> real list" where
  "np_diff (a # b # xs) = (real b - real a) # np_diff (b # xs)"
| "np_diff _ = []"

definition np_mean :: "real list \<Rightarrow> real" where
  "np_mean xs = sum_list xs / real (length xs)"

definition np_std :: "real list \<Rightarrow> real" where
  "np_std xs = sqrt (np_mean (map (\<lambda>x. (x - np_mean xs)\<^sup>2) xs))"

section \<open>Rule evaluator (laminate_optimizer.py)\<close>

text \<open>
  In the helper functions every index is read under the guard the source has
  (a loop over \<^verbatim>\<open>range\<close>, \<^verbatim>\<open>n >= 2\<close>, \<^verbatim>\<open>len(indices) > 1\<close>), and every
  divisor is \<^verbatim>\<open>max(1, _)\<close>, a positive constant or a length tested positive.
\<close>

definition check_symmetry_distance_weighted :: "weights \<Rightarrow> sequence \<Rightarrow> real" where
  "check_symmetry_distance_weighted w s =
     (let n = length s;
          mid = (real n - 1) / 2;
          max_penalty = R1 w;
          pen = (\<Sum>i \<leftarrow> [0..<n div 2].
                   if s ! i \<noteq> s ! (n - 1 - i)
                   then max_penalty * (\<bar>real i - mid\<bar> / max 1 mid) else 0)
      in min pen max_penalty)"

definition check_balance_45 :: "weights \<Rightarrow> sequence \<Rightarrow> real" where
  "check_balance_45 w s =
     (let diff = \<bar>int (count_list s 45) - int (count_list s (- 45))\<bar>;
          total_45_count = count_list s 45 + count_list s (- 45);
          max_penalty = R2 w
      in if total_45_count > 0
         then max_penalty * min 1 (real_of_int diff / real (max 1 (total_45_count div 2)))
         else 0)"

definition check_percentage_rule :: "weights \<Rightarrow> sequence \<Rightarrow> real" where
  "check_percentage_rule w s =
     (let n = length s;
          max_penalty = R3 w;
          per_violation_penalty = max_penalty / 4;
          pen = (\<Sum>a \<leftarrow> [0, 45, - 45, 90].
                   let ratio = (if n > 0 then real (count_list s a) / real n else 0)
                   in if ratio < 8 / 100 \<or> ratio > 67 / 100 then per_violation_penalty else 0)
      in min pen max_penalty)"

definition check_external_plies :: "weights \<Rightarrow> sequence \<Rightarrow> real" where
  "check_external_plies w s =
     (let n = length s; max_score = R4 w
      in if n < 2 then max_score
         else
           let p1 = (if s ! 0 = s ! 1 then max_score * (15 / 100) else 0);
               p2 = (if s ! (n - 1) = s ! (n - 2) then max_score * (15 / 100) else 0)
           in max 0 (max_score - (p1 + p2)))"

definition distribution_angle_penalty :: "real \<Rightarrow> nat \<Rightarrow> nat list \<Rightarrow> real" where
  "distribution_angle_penalty per_angle_penalty n indices =
     (if length indices > 1 then
        let ideal_spacing = real n / real (length indices);
            actual_spacings = np_diff indices;
            c1 = (if length actual_spacings > 0
                  then min 1 (np_std actual_spacings / max ideal_spacing 1)
                         * per_angle_penalty * (6 / 10)
                  else 0);
            span = real (last indices) - real (hd indices);
            span_ratio = span / max 1 (real n - 1);
            target_span = 6 / 10;
            c2 = (if span_ratio < target_span
                  then ((target_span - span_ratio) / target_span) * per_angle_penalty * (4 / 10)
                  else 0)
        in c1 + c2
      else 0)"

definition check_distribution_variance :: "weights \<Rightarrow> sequence \<Rightarrow> real" where
  "check_distribution_variance w s =
     (let n = length s;
          max_penalty = R5 w;
          per_angle_penalty = max_penalty / 4;
          pen = (\<Sum>a \<leftarrow> [0, 45, - 45, 90].
                   distribution_angle_penalty per_angle_penalty n (indices_where (\<lambda>x. x = a) s))
      in min pen max_penalty)"

definition count_groupings :: "sequence \<Rightarrow> nat" where
  "count_groupings s = length [i \<leftarrow> [1..<length s]. s ! i = s ! (i - 1)]"

text \<open>
  The loop of \<^verbatim>\<open>_find_groups_of_size\<close>: \<open>prev\<close> is \<^verbatim>\<open>sequence[i - 1]\<close>, the list
  is the rest of the sequence; the last equation is the test after the loop.
\<close>

fun find_groups_loop :: "angle \<Rightarrow> sequence \<Rightarrow> nat \<Rightarrow> nat \<Rightarrow> nat \<Rightarrow> nat" where
  "find_groups_loop prev [] target_size cur cnt =
     (if cur = target_size then cnt + 1 else cnt)"
| "find_groups_loop prev (x # xs) target_size cur cnt =
     (if x = prev then find_groups_loop x xs target_size (cur + 1) cnt
      else find_groups_loop x xs target_size 1 (if cur = target_size then cnt + 1 else cnt))"

definition find_groups_of_size :: "sequence \<Rightarrow> nat \<Rightarrow> nat" where
  "find_groups_of_size s target_size =
     (if length s < target_size then 0
      else case s of
             [] \<Rightarrow> (if 1 = target_size then 1 else 0)
           | x # xs \<Rightarrow> find_groups_loop x xs target_size 1 0)"

record grouping_stats =
  adjacent_pairs :: nat
  group_runs :: nat
  groups_len_2 :: nat
  groups_len_3 :: nat
  groups_len_ge4 :: nat
  max_run :: nat

definition close_run :: "nat \<Rightarrow> grouping_stats \<Rightarrow> grouping_stats" where
  "close_run cur g =
     (let g1 = (if cur \<ge> 2
                then g\<lparr>group_runs := group_runs g + 1,
                       adjacent_pairs := adjacent_pairs g + (cur - 1),
                       groups_len_2 := groups_len_2 g + (if cur = 2 then 1 else 0),
                       groups_len_3 := groups_len_3 g + (if cur = 3 then 1 else 0),
                       groups_len_ge4 := groups_len_ge4 g + (if cur \<ge> 4 then 1 else 0)\<rparr>
                else g)
      in g1\<lparr>max_run := max (max_run g1) cur\<rparr>)"

fun grouping_stats_loop :: "angle \<Rightarrow> sequence \<Rightarrow> nat \<Rightarrow> grouping_stats \<Rightarrow> grouping_stats" where
  "grouping_stats_loop prev [] cur g = close_run cur g"
| "grouping_stats_loop prev (x # xs) cur g =
     (if x = prev then grouping_stats_loop x xs (cur + 1) g
      else grouping_stats_loop x xs 1 (close_run cur g))"

definition grouping_stats_of :: "sequence \<Rightarrow> grouping_stats" where
  "grouping_stats_of s =
     (case s of
        [] \<Rightarrow> \<lparr>adjacent_pairs = 0, group_runs = 0, groups_len_2 = 0, groups_len_3 = 0,
               groups_len_ge4 = 0, max_run = 0\<rparr>
      | x # xs \<Rightarrow>
          grouping_stats_loop x xs 1
            \<lparr>adjacent_pairs = 0, group_runs = 0, groups_len_2 = 0, groups_len_3 = 0,
             groups_len_ge4 = 0, max_run = 1\<rparr>)"

text \<open>
  The loop of \<^verbatim>\<open>_check_grouping\<close>; the state is
  (\<^verbatim>\<open>cur\<close>, \<^verbatim>\<open>max_group_found\<close>, \<^verbatim>\<open>total_adjacent_pairs\<close>, \<^verbatim>\<open>adjacent_pairs_0_90\<close>).
\<close>

fun grouping_loop :: "angle \<Rightarrow> sequence \<Rightarrow> nat \<Rightarrow> nat \<Rightarrow> nat \<Rightarrow> nat \<Rightarrow> nat \<times> nat \<times> nat" where
  "grouping_loop prev [] cur mg tp zn = (mg, tp, zn)"
| "grouping_loop prev (x # xs) cur mg tp zn =
     (if x = prev
      then grouping_loop x xs (cur + 1) (max mg (cur + 1)) (tp + 1)
             (if x = 0 \<or> x = 90 then zn + 1 else zn)
      else grouping_loop x xs 1 (max mg 1) tp zn)"

definition check_grouping :: "weights \<Rightarrow> sequence \<Rightarrow> nat \<Rightarrow> real" where
  "check_grouping w s max_group =
     (let max_penalty = R6 w;
          (max_group_found, total_adjacent_pairs, adjacent_pairs_0_90) =
             (case s of [] \<Rightarrow> (1, 0, 0) | x # xs \<Rightarrow> grouping_loop x xs 1 1 0 0);
          pen1 = (if max_group_found > max_group
                  then real (max_group_found - max_group) * (max_penalty * (35 / 100)) else 0);
          pen2 = real (find_groups_of_size s 3) * 2;
          pen3 = real adjacent_pairs_0_90 * (3 / 10);
          n = length s;
          pen4 = (if n > 1
                  then (real total_adjacent_pairs / (real n - 1)) * (max_penalty * (50 / 100))
                  else 0)
      in min (pen1 + pen2 + pen3 + pen4) max_penalty)"

definition mid_distance :: "nat \<Rightarrow> nat \<Rightarrow> real" where
  "mid_distance n pos = (let mid = (real n - 1) / 2 in \<bar>real pos - mid\<bar> / max 1 mid)"

definition check_buckling :: "weights \<Rightarrow> sequence \<Rightarrow> real" where
  "check_buckling w s =
     (let max_penalty = R7 w;
          n = length s;
          positions_45 = indices_where (\<lambda>a. \<bar>a\<bar> = 45) s
      in if positions_45 = [] then 0
         else
           let center_zone = 15 / 100;
               penalty_sum = (\<Sum>pos \<leftarrow> positions_45.
                                let dist = mid_distance n pos
                                in if dist < center_zone
                                   then (((center_zone - dist) / center_zone) powr (1 / 2)) * (1 / 2)
                                   else 0);
               normalized_penalty = (penalty_sum / real (length positions_45)) * max_penalty
           in min normalized_penalty max_penalty)"

definition check_lateral_bending :: "weights \<Rightarrow> sequence \<Rightarrow> real" where
  "check_lateral_bending w s =
     (let max_penalty = R8 w;
          threshold = LATERAL_BENDING_THRESHOLD;
          n = length s;
          positions_90 = indices_where (\<lambda>a. a = 90) s
      in if positions_90 = [] then 0
         else
           let penalty_sum = (\<Sum>pos \<leftarrow> positions_90.
                                let dist = mid_distance n pos
                                in if dist < threshold
                                   then (((threshold - dist) / threshold) powr (4 / 10)) * (3 / 2)
                                   else 0);
               center_hits = length [pos \<leftarrow> positions_90.
                                mid_distance n pos < threshold \<and> mid_distance n pos < 20 / 100];
               normalized_penalty = (penalty_sum / real (length positions_90)) * max_penalty;
               floored = (if center_hits \<ge> 2 then max normalized_penalty (max_penalty * (95 / 100))
                          else if center_hits = 1 then max normalized_penalty (max_penalty * (85 / 100))
                          else normalized_penalty)
           in min floored max_penalty)"

definition has_adjacent_0_90 :: "sequence \<Rightarrow> bool" where
  "has_adjacent_0_90 s =
     (\<exists>i \<in> set [0..<length s - 1].
        (s ! i = 0 \<and> s ! (i + 1) = 90) \<or> (s ! i = 90 \<and> s ! (i + 1) = 0))"

text \<open>
  The first index \<open>i\<close> of \<^verbatim>\<open>range(len(sequence) - 1)\<close> with a 0/90 pair at
  \<open>i, i + 1\<close> (the second hard constraint returns at the first such index).
\<close>

fun find_adjacent_0_90 :: "nat \<Rightarrow> sequence \<Rightarrow> nat option" where
  "find_adjacent_0_90 i (a # b # xs) =
     (if (a = 0 \<and> b = 90) \<or> (a = 90 \<and> b = 0) then Some i
      else find_adjacent_0_90 (i + 1) (b # xs))"
| "find_adjacent_0_90 i _ = None"

definition hard_fail :: "string \<Rightarrow> reason \<Rightarrow> real \<times> breakdown" where
  "hard_fail name r =
     (0, \<lparr>total_score = 0, max_score = 100,
          rules = [(name, \<lparr>weight = 999, score = 0, penalty = 999, reason = r\<rparr>)]\<rparr>)"

definition soft_entry :: "real \<Rightarrow> real \<Rightarrow> real \<Rightarrow> reason \<Rightarrow> rule_entry" where
  "soft_entry wk sc pen r =
     \<lparr>weight = wk, score = py_round2 sc, penalty = py_round2 pen,
      reason = (if pen > 0 then r else NoReason)\<rparr>"

text \<open>The part of \<^verbatim>\<open>calculate_fitness\<close> after the hard constraints.\<close>

definition soft_constraints :: "weights \<Rightarrow> sequence \<Rightarrow> real \<times> breakdown" where
  "soft_constraints w s =
     (let penalty_r1 = check_symmetry_distance_weighted w s;
          score_r1 = max 0 (R1 w - penalty_r1);
          penalty_r2 = check_balance_45 w s;
          score_r2 = max 0 (R2 w - penalty_r2);
          penalty_r3 = check_percentage_rule w s;
          score_r3 = max 0 (R3 w - penalty_r3);
          score_r4 = check_external_plies w s;
          penalty_r4 = R4 w - score_r4;
          penalty_r5 = check_distribution_variance w s;
          score_r5 = max 0 (R5 w - penalty_r5);
          penalty_r6 = check_grouping w s 3;
          score_r6 = max 0 (R6 w - penalty_r6);
          gstats = grouping_stats_of s;
          penalty_r7 = check_buckling w s;
          score_r7 = max 0 (R7 w - penalty_r7);
          penalty_r8 = check_lateral_bending w s;
          score_r8 = max 0 (R8 w - penalty_r8);
          rules_result =
            [(''R1'', soft_entry (R1 w) score_r1 penalty_r1 Asymmetry),
             (''R2'', soft_entry (R2 w) score_r2 penalty_r2 Unbalanced45),
             (''R3'', soft_entry (R3 w) score_r3 penalty_r3 PercentageOutside),
             (''R4'', soft_entry (R4 w) score_r4 penalty_r4 ExternalNotIdeal),
             (''R5'', soft_entry (R5 w) score_r5 penalty_r5 DistributionNotUniform),
             (''R6'', soft_entry (R6 w) score_r6 penalty_r6
                        (GroupCounts (groups_len_2 gstats) (groups_len_3 gstats)
                           (groups_len_ge4 gstats))),
             (''R7'', soft_entry (R7 w) score_r7 penalty_r7 Near45MidPlane),
             (''R8'', soft_entry (R8 w) score_r8 penalty_r8 Near90MidPlane)];
          total = sum_list (map (\<lambda>(k, r). score r) rules_result)
      in (total, \<lparr>total_score = py_round2 total, max_score = 100, rules = rules_result\<rparr>))"

text \<open>
  \<^verbatim>\<open>calculate_fitness\<close>: \<^verbatim>\<open>sequence[0]\<close> and \<^verbatim>\<open>sequence[-1]\<close> are read before any
  length test, so they can raise; the outer plies are read under \<^verbatim>\<open>len(sequence) >= 4\<close>.
\<close>

definition calculate_fitness :: "weights \<Rightarrow> sequence \<Rightarrow> py_error + (real \<times> breakdown)" where
  "calculate_fitness w s =
     (case py_get s 0 of
        Inl e \<Rightarrow> Inl e
      | Inr first_ply \<Rightarrow>
          if first_ply = 0 then Inr (hard_fail ''EXTERNAL_0'' ExternalZero)
          else
            (case py_get s (- 1) of
               Inl e \<Rightarrow> Inl e
             | Inr last_ply \<Rightarrow>
                 if last_ply = 0 then Inr (hard_fail ''EXTERNAL_0'' ExternalZero)
                 else
                   (case find_adjacent_0_90 0 s of
                      Some i \<Rightarrow> Inr (hard_fail ''ADJ_0_90'' (AdjacentZeroNinety i (i + 1)))
                    | None \<Rightarrow>
                        (case (if length s \<ge> 4
                               then List.find (\<lambda>(idx, ply). \<bar>ply\<bar> \<noteq> 45)
                                      (List.enumerate 0
                                         [s ! 0, s ! 1, s ! (length s - 2), s ! (length s - 1)])
                               else None) of
                           Some (idx, ply) \<Rightarrow> Inr (hard_fail ''EXTERNAL_45'' (ExternalNot45 idx ply))
                         | None \<Rightarrow> Inr (soft_constraints w s)))))"

section \<open>Random choices\<close>

text \<open>
  The generator of \<^verbatim>\<open>random\<close> is a list of naturals, read from the front (zeros once it
  is used up). Every value of the list gives an outcome the library function can give,
  and every outcome of the library function comes from some list.
\<close>

type_synonym rng = "nat list"

definition rng_next :: "rng \<Rightarrow> nat \<times> rng" where
  "rng_next g = (case g of [] \<Rightarrow> (0, []) | r # rs \<Rightarrow> (r, rs))"

text \<open>\<^verbatim>\<open>random.random() < 0.70\<close>\<close>

definition random_below_070 :: "rng \<Rightarrow> bool \<times> rng" where
  "random_below_070 g = (case rng_next g of (r, g') \<Rightarrow> (r mod 100 < 70, g'))"

text \<open>\<^verbatim>\<open>random.choice(xs)\<close>, called on non-empty lists only.\<close>

definition random_choice :: "'a list \<Rightarrow> rng \<Rightarrow> 'a \<times> rng" where
  "random_choice xs g = (case rng_next g of (r, g') \<Rightarrow> (xs ! (r mod length xs), g'))"

text \<open>\<^verbatim>\<open>random.sample(xs, k)\<close>, called with \<open>k \<le> len(xs)\<close> only: \<open>k\<close> draws without replacement.\<close>

fun random_sample :: "'a list \<Rightarrow> nat \<Rightarrow> rng \<Rightarrow> 'a list \<times> rng" where
  "random_sample xs 0 g = ([], g)"
| "random_sample xs (Suc k) g =
     (case rng_next g of
        (r, g') \<Rightarrow>
          let i = r mod length xs
          in (case random_sample (take i xs @ drop (Suc i) xs) k g' of
                (rest, g'') \<Rightarrow> (xs ! i # rest, g'')))"

text \<open>\<^verbatim>\<open>random.shuffle(xs)\<close>\<close>

definition random_shuffle :: "'a list \<Rightarrow> rng \<Rightarrow> 'a list \<times> rng" where
  "random_shuffle xs g = random_sample xs (length xs) g"

section \<open>Adjacency repair\<close>

definition is_0_90 :: "angle \<Rightarrow> angle \<Rightarrow> bool" where
  "is_0_90 a b \<longleftrightarrow> (a = 0 \<and> b = 90) \<or> (a = 90 \<and> b = 0)"

text \<open>
  The three tests of \<^verbatim>\<open>_fix_adjacent_0_90\<close> after the swap of positions \<open>i + 1\<close> and
  \<open>j\<close>: the pairs at \<open>i, i + 1\<close>, at \<open>j - 1, j\<close> and at \<open>j, j + 1\<close>.
\<close>

definition swap_ok :: "sequence \<Rightarrow> nat \<Rightarrow> nat \<Rightarrow> bool" where
  "swap_ok s i j \<longleftrightarrow>
     \<not> (i + 1 < length s \<and> is_0_90 (s ! i) (s ! (i + 1)))
     \<and> \<not> (j > 0 \<and> is_0_90 (s ! (j - 1)) (s ! j))
     \<and> \<not> (j < length s - 1 \<and> is_0_90 (s ! j) (s ! (j + 1)))"

text \<open>\<^verbatim>\<open>for j in candidates\<close>: the first swap that passes the tests, or none (every failed swap is undone).\<close>

fun try_swaps :: "sequence \<Rightarrow> nat \<Rightarrow> nat list \<Rightarrow> sequence option" where
  "try_swaps s i [] = None"
| "try_swaps s i (j # js) =
     (if j = i \<or> j = i + 1 then try_swaps s i js
      else
        let s' = s[i + 1 := s ! j, j := s ! (i + 1)]
        in if swap_ok s' i j then Some s' else try_swaps s i js)"

text \<open>\<^verbatim>\<open>for i in range(len(seq) - 1)\<close>: the first violating pair for which a swap is found.\<close>

fun fix_scan :: "sequence \<Rightarrow> nat list \<Rightarrow> rng \<Rightarrow> sequence option \<times> rng" where
  "fix_scan s [] g = (None, g)"
| "fix_scan s (i # is) g =
     (if is_0_90 (s ! i) (s ! (i + 1))
      then (case random_shuffle [0..<length s] g of
              (candidates, g') \<Rightarrow>
                (case try_swaps s i candidates of
                   Some s' \<Rightarrow> (Some s', g')
                 | None \<Rightarrow> fix_scan s is g'))
      else fix_scan s is g)"

text \<open>\<^verbatim>\<open>while attempt < max_attempts\<close>, the natural number counting the attempts left.\<close>

fun fix_loop :: "nat \<Rightarrow> sequence \<Rightarrow> rng \<Rightarrow> sequence \<times> rng" where
  "fix_loop 0 s g = (s, g)"
| "fix_loop (Suc k) s g =
     (case fix_scan s [0..<length s - 1] g of
        (None, g') \<Rightarrow> (s, g')
      | (Some s', g') \<Rightarrow> fix_loop k s' g')"

definition fix_adjacent_0_90 :: "sequence \<Rightarrow> rng \<Rightarrow> sequence \<times> rng" where
  "fix_adjacent_0_90 s g = fix_loop (length s * 3) s g"

section \<open>Dictionaries\<close>

definition dict_keys :: "('k \<times> 'v) list \<Rightarrow> 'k list" where
  "dict_keys d = map fst d"

definition dict_get :: "('k \<times> 'v) list \<Rightarrow> 'k \<Rightarrow> 'v \<Rightarrow> 'v" where
  "dict_get d k dflt = (case map_of d k of Some v \<Rightarrow> v | None \<Rightarrow> dflt)"

text \<open>\<^verbatim>\<open>d[k] = v\<close>: an existing key keeps its place, a new key goes to the end.\<close>

definition dict_set :: "('k \<times> 'v) list \<Rightarrow> 'k \<Rightarrow> 'v \<Rightarrow> ('k \<times> 'v) list" where
  "dict_set d k v =
     (if k \<in> set (dict_keys d) then map (\<lambda>(k', v'). if k' = k then (k', v) else (k', v')) d
      else d @ [(k, v)])"

definition dict_del :: "('k \<times> 'v) list \<Rightarrow> 'k \<Rightarrow> ('k \<times> 'v) list" where
  "dict_del d k = filter (\<lambda>(k', v'). k' \<noteq> k) d"

text \<open>\<^verbatim>\<open>d[k] -= 1; if d[k] == 0: del d[k]\<close>, for a key that is present.\<close>

definition dict_decrement :: "(angle \<times> nat) list \<Rightarrow> angle \<Rightarrow> (angle \<times> nat) list" where
  "dict_decrement d k =
     (let v = dict_get d k 0 - 1 in if v = 0 then dict_del d k else dict_set d k v)"

text \<open>\<^verbatim>\<open>d.setdefault(k, []).extend(xs)\<close>, also \<^verbatim>\<open>d[k].extend(xs)\<close> for a key that is present.\<close>

definition dict_extend :: "('k \<times> 'a list) list \<Rightarrow> 'k \<Rightarrow> 'a list \<Rightarrow> ('k \<times> 'a list) list" where
  "dict_extend d k xs = dict_set d k (dict_get d k [] @ xs)"

section \<open>Drop-off engine (dropoff_optimizer.py)\<close>

text \<open>
  A Python dict is an association list in insertion order: \<open>target_ply_counts\<close> maps an
  angle to its target count, the removal record an angle to parent indices.
\<close>

type_synonym targets = "(angle \<times> int) list"
type_synonym dropped = "(angle \<times> nat list) list"
type_synonym drop_result = "py_error + (sequence \<times> real \<times> dropped)"

text \<open>
  Step 1 of \<^verbatim>\<open>optimize_drop_with_angle_targets\<close>: the loop over
  \<^verbatim>\<open>target_ply_counts.items()\<close> raises at the first entry that exceeds the parent's
  count or is negative, testing the excess first.
\<close>

fun validate_targets :: "sequence \<Rightarrow> targets \<Rightarrow> py_error option" where
  "validate_targets master [] = None"
| "validate_targets master ((a, target_count) # rest) =
     (let current = int (count_list master a)
      in if target_count > current then Some (TargetExceedsParent a target_count current)
         else if target_count < 0 then Some (TargetNegative a)
         else validate_targets master rest)"

text \<open>Step 2: the plies to drop per angle, for the angles whose count exceeds the target.\<close>

definition initial_drops_needed :: "sequence \<Rightarrow> targets \<Rightarrow> (angle \<times> nat) list" where
  "initial_drops_needed master target_ply_counts =
     [(a, nat (int (count_list master a) - target_count)).
        (a, target_count) \<leftarrow> target_ply_counts, int (count_list master a) > target_count]"

text \<open>
  \<^verbatim>\<open>optimize_drop_with_angle_targets\<close>. The search of step 4 with its fallbacks is the
  argument \<open>search\<close>, which receives the parent, the targets and the drops needed; the
  search of the source is \<open>angle_target_search\<close> below, so that the source's function is
  \<open>optimize_drop_with_angle_targets w (angle_target_search w g)\<close> for the state \<open>g\<close> of
  the random generator.
\<close>

definition optimize_drop_with_angle_targets ::
  "weights \<Rightarrow> (sequence \<Rightarrow> targets \<Rightarrow> (angle \<times> nat) list \<Rightarrow> drop_result)
     \<Rightarrow> sequence \<Rightarrow> targets \<Rightarrow> drop_result" where
  "optimize_drop_with_angle_targets w search master target_ply_counts =
     (case validate_targets master target_ply_counts of
        Some e \<Rightarrow> Inl e
      | None \<Rightarrow>
          let drops_needed = initial_drops_needed master target_ply_counts;
              total_drops = sum_list (map snd drops_needed)
          in if total_drops = 0
             then (case calculate_fitness w master of
                     Inl e \<Rightarrow> Inl e
                   | Inr (sc, details) \<Rightarrow> Inr (master, sc, []))
             else search master target_ply_counts drops_needed)"

section \<open>Randomized search of optimize_drop_with_angle_targets\<close>

definition ANGLE_TARGET_DROP_ATTEMPTS :: nat where
  "ANGLE_TARGET_DROP_ATTEMPTS = 3000"

definition DROP_OFF_ATTEMPTS :: nat where
  "DROP_OFF_ATTEMPTS = 3000"

definition middle_idx :: "sequence \<Rightarrow> nat option" where
  "middle_idx master = (if length master mod 2 = 1 then Some (length master div 2) else None)"

definition middle_angle :: "sequence \<Rightarrow> angle option" where
  "middle_angle master = map_option (\<lambda>i. master ! i) (middle_idx master)"

text \<open>
  Step 3: what the parity of parent and target lengths and the parity of each angle's
  drop count decide. \<open>plan_single_ply_drops\<close> holds the keys of the dict
  \<^verbatim>\<open>single_ply_drops\<close> (every value is 1).
\<close>

record drop_plan =
  plan_drops_needed :: "(angle \<times> nat) list"
  plan_drop_middle :: bool
  plan_break_pair_for_middle :: bool
  plan_break_pair_angle :: "angle option"
  plan_single_ply_drops :: "angle list"

definition parity_plan :: "sequence \<Rightarrow> targets \<Rightarrow> (angle \<times> nat) list \<Rightarrow> drop_plan" where
  "parity_plan master target_ply_counts dn =
     (let master_is_odd = (length master mod 2 = 1);
          target_total = sum_list (map snd target_ply_counts);
          target_is_odd = (target_total mod 2 = 1)
      in if master_is_odd \<and> \<not> target_is_odd then
           \<lparr>plan_drops_needed =
              (case middle_angle master of
                 Some a \<Rightarrow> if a \<in> set (dict_keys dn) then dict_decrement dn a else dn
               | None \<Rightarrow> dn),
            plan_drop_middle = True, plan_break_pair_for_middle = False,
            plan_break_pair_angle = None, plan_single_ply_drops = []\<rparr>
         else if \<not> master_is_odd \<and> target_is_odd then
           (case List.find (\<lambda>(a, c). c mod 2 = 1) dn of
              Some (a, c) \<Rightarrow>
                \<lparr>plan_drops_needed = dict_decrement dn a,
                 plan_drop_middle = False, plan_break_pair_for_middle = True,
                 plan_break_pair_angle = Some a, plan_single_ply_drops = []\<rparr>
            | None \<Rightarrow>
                \<lparr>plan_drops_needed = dn,
                 plan_drop_middle = False, plan_break_pair_for_middle = True,
                 plan_break_pair_angle = (if dn \<noteq> [] then Some (fst (hd dn)) else None),
                 plan_single_ply_drops = []\<rparr>)
         else
           \<lparr>plan_drops_needed = dn, plan_drop_middle = False,
            plan_break_pair_for_middle = False, plan_break_pair_angle = None,
            plan_single_ply_drops = []\<rparr>)"

text \<open>The body of \<^verbatim>\<open>for angle in list(drops_needed.keys())\<close>.\<close>

definition single_ply_step :: "sequence \<Rightarrow> angle \<Rightarrow> drop_plan \<Rightarrow> drop_plan" where
  "single_ply_step master a p =
     (if dict_get (plan_drops_needed p) a 0 mod 2 \<noteq> 0 then
        (if length master mod 2 = 1 \<and> middle_angle master = Some a \<and> \<not> plan_drop_middle p
         then p\<lparr>plan_drop_middle := True,
                plan_drops_needed := dict_decrement (plan_drops_needed p) a\<rparr>
         else p\<lparr>plan_single_ply_drops := plan_single_ply_drops p @ [a],
                plan_drops_needed := dict_decrement (plan_drops_needed p) a\<rparr>)
      else p)"

definition drop_plan_of :: "sequence \<Rightarrow> targets \<Rightarrow> (angle \<times> nat) list \<Rightarrow> drop_plan" where
  "drop_plan_of master target_ply_counts dn =
     (let p = parity_plan master target_ply_counts dn
      in fold (single_ply_step master) (dict_keys (plan_drops_needed p)) p)"

text \<open>
  The position dicts, read with \<^verbatim>\<open>.get(angle, [])\<close>. \<^verbatim>\<open>if break_pair_angle:\<close> is false
  for the angle 0 as well as for \<^verbatim>\<open>None\<close>.
\<close>

definition all_angles_to_check :: "drop_plan \<Rightarrow> angle set" where
  "all_angles_to_check p =
     set (dict_keys (plan_drops_needed p))
     \<union> (case plan_break_pair_angle p of Some a \<Rightarrow> if a \<noteq> 0 then {a} else {} | None \<Rightarrow> {})"

definition angle_positions_left :: "sequence \<Rightarrow> drop_plan \<Rightarrow> angle \<Rightarrow> nat list" where
  "angle_positions_left master p a =
     (if a \<in> all_angles_to_check p
      then [i \<leftarrow> [i \<leftarrow> [0..<length master div 2]. master ! i = a]. i > 1]
      else [])"

definition angle_grouped_left :: "sequence \<Rightarrow> drop_plan \<Rightarrow> angle \<Rightarrow> nat list" where
  "angle_grouped_left master p a =
     [q \<leftarrow> angle_positions_left master p a.
        (q > 0 \<and> master ! (q - 1) = a) \<or> (q < length master - 1 \<and> master ! (q + 1) = a)]"

definition angle_positions_all :: "sequence \<Rightarrow> drop_plan \<Rightarrow> angle \<Rightarrow> nat list" where
  "angle_positions_all master p a =
     (if a \<in> set (plan_single_ply_drops p)
      then [i \<leftarrow> [i \<leftarrow> [0..<length master]. master ! i = a]. 1 < i \<and> i < length master - 2]
      else [])"

text \<open>
  The loop over \<^verbatim>\<open>drops_needed.items()\<close> that picks the left-half positions of the
  symmetric pairs; \<open>None\<close> is \<^verbatim>\<open>valid = False\<close>.
\<close>

fun select_left_drops ::
  "bool \<Rightarrow> (angle \<Rightarrow> nat list) \<Rightarrow> (angle \<Rightarrow> nat list) \<Rightarrow> (angle \<times> nat) list \<Rightarrow> rng
     \<Rightarrow> (angle \<times> nat list) list option \<times> rng" where
  "select_left_drops prefer_grouped avail grp [] g = (Some [], g)"
| "select_left_drops prefer_grouped avail grp ((a, drop_count) # rest) g =
     (let pairs_needed = drop_count div 2;
          available = avail a;
          grouped = grp a
      in if length available < pairs_needed then (None, g)
         else
           (case (if prefer_grouped \<and> grouped \<noteq> [] then
                    (let ungrouped = [q \<leftarrow> available. q \<notin> set grouped]
                     in case (if length grouped \<ge> pairs_needed
                              then random_sample grouped pairs_needed g
                              else
                                let remaining = pairs_needed - length grouped
                                in if length ungrouped \<ge> remaining
                                   then (case random_sample ungrouped remaining g of
                                           (extra, g') \<Rightarrow> (grouped @ extra, g'))
                                   else (grouped @ ungrouped, g)) of
                          (selected, g') \<Rightarrow> (take pairs_needed selected, g'))
                  else random_sample available pairs_needed g) of
              (selected, g') \<Rightarrow>
                (case select_left_drops prefer_grouped avail grp rest g' of
                   (None, g'') \<Rightarrow> (None, g'')
                 | (Some m, g'') \<Rightarrow> (Some ((a, sort selected) # m), g''))))"

fun has_consecutive :: "nat list \<Rightarrow> bool" where
  "has_consecutive (a # b # xs) = (int b - int a = 1 \<or> has_consecutive (b # xs))"
| "has_consecutive _ = False"

definition pair_indices :: "nat \<Rightarrow> nat list \<Rightarrow> nat list" where
  "pair_indices n left_positions = concat (map (\<lambda>idx. [idx, n - 1 - idx]) left_positions)"

text \<open>The break of one pair (even parent, odd target): only the mirror is dropped.\<close>

definition break_pair_drop ::
  "sequence \<Rightarrow> drop_plan \<Rightarrow> (angle \<times> nat list) list \<Rightarrow> nat list \<Rightarrow> dropped \<Rightarrow> rng
     \<Rightarrow> (nat list \<times> dropped) \<times> rng" where
  "break_pair_drop master p left_drops_by_angle all_drops dba g =
     (case (plan_break_pair_for_middle p, plan_break_pair_angle p) of
        (True, Some bpa) \<Rightarrow>
          let used_positions = dict_get left_drops_by_angle bpa [];
              available_for_break =
                [q \<leftarrow> angle_positions_left master p bpa. q \<notin> set used_positions]
          in if available_for_break \<noteq> []
             then (case random_choice available_for_break g of
                     (break_pair_idx, g') \<Rightarrow>
                       let mirror_idx = length master - 1 - break_pair_idx
                       in ((all_drops @ [mirror_idx], dict_extend dba bpa [mirror_idx]), g'))
             else ((all_drops, dba), g)
      | _ \<Rightarrow> ((all_drops, dba), g))"

text \<open>The asymmetric single-ply drops; \<open>None\<close> is \<^verbatim>\<open>single_valid = False\<close>.\<close>

fun single_drops ::
  "(angle \<Rightarrow> nat list) \<Rightarrow> angle list \<Rightarrow> nat list \<Rightarrow> dropped \<Rightarrow> rng
     \<Rightarrow> (nat list \<times> dropped) option \<times> rng" where
  "single_drops apa [] all_drops dba g = (Some (all_drops, dba), g)"
| "single_drops apa (s_angle # rest) all_drops dba g =
     (let available_for_single = [q \<leftarrow> apa s_angle. q \<notin> set all_drops]
      in if available_for_single = [] then (None, g)
         else (case random_choice available_for_single g of
                 (single_pos, g') \<Rightarrow>
                   single_drops apa rest (all_drops @ [single_pos])
                     (dict_extend dba s_angle [single_pos]) g'))"

definition remove_indices :: "sequence \<Rightarrow> nat list \<Rightarrow> sequence" where
  "remove_indices master all_drops =
     map (\<lambda>i. master ! i) [i \<leftarrow> [0..<length master]. i \<notin> set all_drops]"

text \<open>
  One attempt up to the candidate: \<open>None\<close> is a \<^verbatim>\<open>continue\<close> before the candidate is
  built. The dict \<^verbatim>\<open>dropped_by_angle\<close> starts with an empty list for every angle of
  \<^verbatim>\<open>drops_needed\<close> and \<^verbatim>\<open>single_ply_drops\<close> (a set in the source; its order is taken to be
  that of the two dicts).
\<close>

definition generate_candidate ::
  "sequence \<Rightarrow> drop_plan \<Rightarrow> rng \<Rightarrow> (sequence \<times> dropped) option \<times> rng" where
  "generate_candidate master p g =
     (let n = length master
      in case random_below_070 g of
           (prefer_grouped, g1) \<Rightarrow>
             (case select_left_drops prefer_grouped (angle_positions_left master p)
                     (angle_grouped_left master p) (plan_drops_needed p) g1 of
                (None, g2) \<Rightarrow> (None, g2)
              | (Some left_drops_by_angle, g2) \<Rightarrow>
                  let all_left_drops = sort (concat (map snd left_drops_by_angle))
                  in if has_consecutive all_left_drops then (None, g2)
                     else
                       let all_drops0 =
                             concat (map (\<lambda>(a, lp). pair_indices n lp) left_drops_by_angle);
                           dba0 =
                             fold (\<lambda>(a, lp) d. dict_extend d a (pair_indices n lp))
                               left_drops_by_angle
                               (map (\<lambda>a. (a, []))
                                  (remdups (dict_keys (plan_drops_needed p)
                                            @ plan_single_ply_drops p)));
                           (all_drops1, dba1) =
                             (case (plan_drop_middle p, middle_idx master) of
                                (True, Some mi) \<Rightarrow>
                                  (all_drops0 @ [mi], dict_extend dba0 (master ! mi) [mi])
                              | _ \<Rightarrow> (all_drops0, dba0))
                       in case break_pair_drop master p left_drops_by_angle all_drops1 dba1 g2 of
                            ((all_drops2, dba2), g3) \<Rightarrow>
                              (case single_drops (angle_positions_all master p)
                                      (plan_single_ply_drops p) all_drops2 dba2 g3 of
                                 (None, g4) \<Rightarrow> (None, g4)
                               | (Some (all_drops3, dba3), g4) \<Rightarrow>
                                   let temp_seq = remove_indices master all_drops3
                                   in if plan_single_ply_drops p \<noteq> []
                                      then (case fix_adjacent_0_90 temp_seq g4 of
                                              (repaired, g5) \<Rightarrow> (Some (repaired, dba3), g5))
                                      else (Some (temp_seq, dba3), g4))))"

record search_best =
  best_candidate :: "sequence option"
  best_score :: real
  best_g3 :: nat
  best_dropped_by_angle :: dropped

definition initial_best :: search_best where
  "initial_best = \<lparr>best_candidate = None, best_score = - 1, best_g3 = 999,
                    best_dropped_by_angle = []\<rparr>"

definition matches_target :: "targets \<Rightarrow> sequence \<Rightarrow> bool" where
  "matches_target target_ply_counts temp_seq =
     list_all (\<lambda>(a, orig_target). \<not> \<bar>int (count_list temp_seq a) - orig_target\<bar> > 0)
       target_ply_counts"

text \<open>Python's order on pairs.\<close>

definition pair_less :: "real \<times> real \<Rightarrow> real \<times> real \<Rightarrow> bool" where
  "pair_less k1 k2 \<longleftrightarrow> fst k1 < fst k2 \<or> (fst k1 = fst k2 \<and> snd k1 < snd k2)"

text \<open>
  The rest of the attempt, from the fitness of the candidate on: the hard-constraint
  test, the target test, the grouping tests and the comparison with the best so far.
\<close>

definition accept_candidate ::
  "targets \<Rightarrow> sequence \<Rightarrow> real \<Rightarrow> dropped \<Rightarrow> search_best \<Rightarrow> search_best" where
  "accept_candidate target_ply_counts temp_seq sc dba best =
     (if sc \<le> 0 then best
      else if \<not> matches_target target_ply_counts temp_seq then best
      else if find_groups_of_size temp_seq 4 + find_groups_of_size temp_seq 5 > 0 then best
      else
        let groups_of_3 = find_groups_of_size temp_seq 3
        in if groups_of_3 > 4 then best
           else
             let candidate_key = (real groups_of_3, - sc);
                 best_key_current =
                   (if best_score best < 0 then (999, 0)
                    else (real (best_g3 best), - best_score best))
             in if best_candidate best = None \<or> pair_less candidate_key best_key_current
                then \<lparr>best_candidate = Some temp_seq, best_score = sc, best_g3 = groups_of_3,
                      best_dropped_by_angle = map (\<lambda>(a, positions). (a, sort positions)) dba\<rparr>
                else best)"

definition angle_target_attempt ::
  "weights \<Rightarrow> sequence \<Rightarrow> targets \<Rightarrow> drop_plan \<Rightarrow> search_best \<Rightarrow> rng
     \<Rightarrow> py_error + (search_best \<times> rng)" where
  "angle_target_attempt w master target_ply_counts p best g =
     (case generate_candidate master p g of
        (None, g') \<Rightarrow> Inr (best, g')
      | (Some (temp_seq, dba), g') \<Rightarrow>
          (case calculate_fitness w temp_seq of
             Inl e \<Rightarrow> Inl e
           | Inr (sc, details) \<Rightarrow>
               Inr (accept_candidate target_ply_counts temp_seq sc dba best, g')))"

fun angle_target_loop ::
  "weights \<Rightarrow> sequence \<Rightarrow> targets \<Rightarrow> drop_plan \<Rightarrow> nat \<Rightarrow> search_best \<Rightarrow> rng
     \<Rightarrow> py_error + (search_best \<times> rng)" where
  "angle_target_loop w master target_ply_counts p 0 best g = Inr (best, g)"
| "angle_target_loop w master target_ply_counts p (Suc k) best g =
     (case angle_target_attempt w master target_ply_counts p best g of
        Inl e \<Rightarrow> Inl e
      | Inr (best', g') \<Rightarrow> angle_target_loop w master target_ply_counts p k best' g')"

section \<open>Deterministic fallbacks of optimize_drop_with_angle_targets\<close>

text \<open>\<^verbatim>\<open>xs.pop(i)\<close> for an index in range.\<close>

definition list_pop :: "'a list \<Rightarrow> nat \<Rightarrow> 'a list" where
  "list_pop xs i = take i xs @ drop (Suc i) xs"

text \<open>\<^verbatim>\<open>dict(Counter(seq))\<close>: the angles in the order of their first occurrence.\<close>

definition counter :: "sequence \<Rightarrow> (angle \<times> int) list" where
  "counter s = map (\<lambda>a. (a, int (count_list s a))) (rev (remdups (rev s)))"

definition full_targets_of :: "sequence \<Rightarrow> targets \<Rightarrow> targets" where
  "full_targets_of master target_ply_counts =
     fold (\<lambda>(a, t) d. dict_set d a t) target_ply_counts (counter master)"

definition sorted_dropped :: "dropped \<Rightarrow> dropped" where
  "sorted_dropped d = map (\<lambda>(a, v). (a, sort v)) d"

text \<open>A state of the beam: the tuple (score, seq, pos_map, pairs_left, dropped).\<close>

record beam_state =
  bs_score :: real
  bs_seq :: sequence
  bs_pos_map :: "nat list"
  bs_pairs_left :: "(angle \<times> nat) list"
  bs_dropped :: dropped

text \<open>
  The first loop of both fallbacks, over \<^verbatim>\<open>target_counts_in.items()\<close>: \<open>None\<close> when a
  target exceeds the count; otherwise, per angle, the pair part of the difference and
  whether one single ply is left over.
\<close>

fun beam_requirements ::
  "sequence \<Rightarrow> targets \<Rightarrow> ((angle \<times> nat) list \<times> angle list) option" where
  "beam_requirements seq0 [] = Some ([], [])"
| "beam_requirements seq0 ((ang, tgt) # rest) =
     (let cur = int (count_list seq0 ang)
      in if tgt > cur then None
         else
           (case beam_requirements seq0 rest of
              None \<Rightarrow> None
            | Some (pairs_needed, single_angles) \<Rightarrow>
                let delta = cur - tgt;
                    pair_delta = (if delta mod 2 \<noteq> 0 then delta - 1 else delta)
                in Some ((if pair_delta > 0 then [(ang, nat (pair_delta div 2))] else [])
                           @ pairs_needed,
                         (if delta mod 2 \<noteq> 0 then [ang] else []) @ single_angles)))"

text \<open>
  The pairs a state can drop: for every angle with pairs left (angles ascending), every
  left index from \<open>protect\<close> on whose ply and mirror ply both have that angle.
\<close>

definition pair_positions :: "nat \<Rightarrow> sequence \<Rightarrow> angle \<Rightarrow> nat list" where
  "pair_positions protect s ang =
     [left_idx \<leftarrow> [protect..<length s div 2].
        s ! left_idx = ang \<and> length s - 1 - left_idx \<noteq> left_idx
        \<and> s ! (length s - 1 - left_idx) = ang]"

definition beam_moves :: "nat \<Rightarrow> beam_state \<Rightarrow> (angle \<times> nat) list" where
  "beam_moves protect st =
     concat (map (\<lambda>ang. map (\<lambda>left_idx. (ang, left_idx)) (pair_positions protect (bs_seq st) ang))
               (sort (map fst [(a, k) \<leftarrow> bs_pairs_left st. k > 0])))"

fun expand_state ::
  "weights \<Rightarrow> beam_state \<Rightarrow> (angle \<times> nat) list \<Rightarrow> py_error + beam_state list" where
  "expand_state w st [] = Inr []"
| "expand_state w st ((ang, left_idx) # moves) =
     (let right_idx = length (bs_seq st) - 1 - left_idx;
          orig_left = bs_pos_map st ! left_idx;
          orig_right = bs_pos_map st ! right_idx;
          temp_seq = list_pop (list_pop (bs_seq st) right_idx) left_idx;
          temp_pos = list_pop (list_pop (bs_pos_map st) right_idx) left_idx
      in case calculate_fitness w temp_seq of
           Inl e \<Rightarrow> Inl e
         | Inr (sc, details) \<Rightarrow>
             (case expand_state w st moves of
                Inl e \<Rightarrow> Inl e
              | Inr others \<Rightarrow>
                  Inr ((if sc \<le> 0 then []
                        else [\<lparr>bs_score = sc, bs_seq = temp_seq, bs_pos_map = temp_pos,
                               bs_pairs_left = dict_decrement (bs_pairs_left st) ang,
                               bs_dropped = dict_extend (bs_dropped st) ang
                                              [orig_left, orig_right]\<rparr>])
                       @ others)))"

fun expand_beam :: "weights \<Rightarrow> nat \<Rightarrow> beam_state list \<Rightarrow> py_error + beam_state list" where
  "expand_beam w protect [] = Inr []"
| "expand_beam w protect (st # beam) =
     (case expand_state w st (beam_moves protect st) of
        Inl e \<Rightarrow> Inl e
      | Inr xs \<Rightarrow>
          (case expand_beam w protect beam of
             Inl e \<Rightarrow> Inl e
           | Inr ys \<Rightarrow> Inr (xs @ ys)))"

text \<open>The states whose sequence has not been seen before, in order.\<close>

fun unseen_states :: "sequence list \<Rightarrow> beam_state list \<Rightarrow> beam_state list" where
  "unseen_states seen [] = []"
| "unseen_states seen (st # sts) =
     (if bs_seq st \<in> set seen then unseen_states seen sts
      else st # unseen_states (bs_seq st # seen) sts)"

text \<open>\<^verbatim>\<open>max(beam, key=...)\<close>: the first state of maximal score.\<close>

definition best_state :: "beam_state list \<Rightarrow> beam_state" where
  "best_state beam =
     fold (\<lambda>st b. if bs_score st > bs_score b then st else b) (tl beam) (hd beam)"

text \<open>\<^verbatim>\<open>for _step in range(total_pairs)\<close>; \<open>Inr None\<close> is \<^verbatim>\<open>return None\<close>.\<close>

fun beam_steps ::
  "weights \<Rightarrow> nat \<Rightarrow> nat \<Rightarrow> nat \<Rightarrow> beam_state list \<Rightarrow> py_error + beam_state list option" where
  "beam_steps w protect beam_width 0 beam = Inr (Some beam)"
| "beam_steps w protect beam_width (Suc k) beam =
     (case expand_beam w protect beam of
        Inl e \<Rightarrow> Inl e
      | Inr next_states \<Rightarrow>
          if next_states = [] then Inr None
          else
            let ordered = sort_key (\<lambda>st. - bs_score st) next_states;
                new_beam = take beam_width (unseen_states [] ordered)
            in beam_steps w protect beam_width k new_beam)"

text \<open>
  Phase 2 of both fallbacks, for two or more odd angles: every combination of one
  position per angle (positions 2 to n - 3), repaired and scored; the first combination
  of the highest score wins.
\<close>

fun best_combo ::
  "weights \<Rightarrow> sequence \<Rightarrow> nat list list \<Rightarrow> (nat list option \<times> real) \<Rightarrow> rng
     \<Rightarrow> py_error + ((nat list option \<times> real) \<times> rng)" where
  "best_combo w s [] acc g = Inr (acc, g)"
| "best_combo w s (combo # combos) acc g =
     (if \<not> distinct combo then best_combo w s combos acc g
      else
        (case fix_adjacent_0_90 (remove_indices s combo) g of
           (temp, g') \<Rightarrow>
             (case calculate_fitness w temp of
                Inl e \<Rightarrow> Inl e
              | Inr (sc, details) \<Rightarrow>
                  best_combo w s combos (if sc > snd acc then (Some combo, sc) else acc) g')))"

text \<open>Phase 2 for one odd angle: the position whose removal scores highest.\<close>

fun best_single ::
  "weights \<Rightarrow> sequence \<Rightarrow> nat list \<Rightarrow> (nat option \<times> real) \<Rightarrow> py_error + (nat option \<times> real)" where
  "best_single w s [] acc = Inr acc"
| "best_single w s (i # is) acc =
     (case calculate_fitness w (list_pop s i) of
        Inl e \<Rightarrow> Inl e
      | Inr (sc, details) \<Rightarrow> best_single w s is (if sc > snd acc then (Some i, sc) else acc))"

definition single_positions :: "sequence \<Rightarrow> angle \<Rightarrow> nat list" where
  "single_positions s ang = [i \<leftarrow> [2..<length s - 2]. s ! i = ang]"

definition pop_all :: "'a list \<Rightarrow> nat list \<Rightarrow> 'a list" where
  "pop_all xs positions = fold (\<lambda>q ys. list_pop ys q) (rev (sort positions)) xs"

definition single_phase ::
  "weights \<Rightarrow> angle list \<Rightarrow> sequence \<Rightarrow> nat list \<Rightarrow> dropped \<Rightarrow> rng
     \<Rightarrow> py_error + ((sequence \<times> nat list \<times> dropped) option \<times> rng)" where
  "single_phase w single_angles s pos_map dropped_by_angle g =
     (if length single_angles \<ge> 2 then
        (case best_combo w s (product_lists (map (single_positions s) single_angles))
                (None, - 1) g of
           Inl e \<Rightarrow> Inl e
         | Inr ((found, best_combo_score), g') \<Rightarrow>
             (case found of
                None \<Rightarrow> Inr (None, g')
              | Some combo \<Rightarrow>
                  if best_combo_score \<le> 0 then Inr (None, g')
                  else
                    let d = fold (\<lambda>(ang, q) d. dict_extend d ang [pos_map ! q])
                              (zip single_angles combo) dropped_by_angle
                    in (case fix_adjacent_0_90 (pop_all s combo) g' of
                          (repaired, g'') \<Rightarrow>
                            Inr (Some (repaired, pop_all pos_map combo, d), g''))))
      else if length single_angles = 1 then
        (let ang = single_angles ! 0
         in case best_single w s (single_positions s ang) (None, - 1) of
              Inl e \<Rightarrow> Inl e
            | Inr (found, best_sc) \<Rightarrow>
                (case found of
                   None \<Rightarrow> Inr (None, g)
                 | Some best_pos \<Rightarrow>
                     if best_sc \<le> 0 then Inr (None, g)
                     else Inr (Some (list_pop s best_pos, list_pop pos_map best_pos,
                                     dict_extend dropped_by_angle ang [pos_map ! best_pos]), g)))
      else Inr (Some (s, pos_map, dropped_by_angle), g))"

text \<open>The final validation of both fallbacks.\<close>

definition final_validation ::
  "weights \<Rightarrow> (sequence \<times> nat list \<times> dropped) option \<times> rng
     \<Rightarrow> py_error + ((sequence \<times> real \<times> dropped) option \<times> rng)" where
  "final_validation w r =
     (case r of
        (None, g) \<Rightarrow> Inr (None, g)
      | (Some (s, pos_map, dropped_by_angle), g) \<Rightarrow>
          (case calculate_fitness w s of
             Inl e \<Rightarrow> Inl e
           | Inr (sc, details) \<Rightarrow>
               if sc \<le> 0 then Inr (None, g)
               else Inr (Some (s, sc, sorted_dropped dropped_by_angle), g)))"

definition beam_search_angle_target_drop ::
  "weights \<Rightarrow> sequence \<Rightarrow> targets \<Rightarrow> nat \<Rightarrow> nat \<Rightarrow> rng
     \<Rightarrow> py_error + ((sequence \<times> real \<times> dropped) option \<times> rng)" where
  "beam_search_angle_target_drop w seq_in target_counts_in protect_left_min_idx beam_width0 g =
     (let beam_width = (if beam_width0 < 1 then 1 else beam_width0);
          pos0 = [0..<length seq_in]
      in case beam_requirements seq_in target_counts_in of
           None \<Rightarrow> Inr (None, g)
         | Some (pairs_needed, beam_single_angles) \<Rightarrow>
             let total_pairs = sum_list (map snd pairs_needed)
             in case calculate_fitness w seq_in of
                  Inl e \<Rightarrow> Inl e
                | Inr (sc0, details) \<Rightarrow>
                    if total_pairs = 0 \<and> beam_single_angles = []
                    then (if sc0 \<le> 0 then Inr (None, g) else Inr (Some (seq_in, sc0, []), g))
                    else if sc0 \<le> 0 then Inr (None, g)
                    else
                      (case (if total_pairs > 0
                             then (case beam_steps w protect_left_min_idx beam_width total_pairs
                                          [\<lparr>bs_score = sc0, bs_seq = seq_in, bs_pos_map = pos0,
                                            bs_pairs_left = pairs_needed, bs_dropped = []\<rparr>] of
                                     Inl e \<Rightarrow> Inl e
                                   | Inr None \<Rightarrow> Inr None
                                   | Inr (Some beam) \<Rightarrow> Inr (Some (best_state beam)))
                             else Inr (Some \<lparr>bs_score = sc0, bs_seq = seq_in, bs_pos_map = pos0,
                                             bs_pairs_left = [], bs_dropped = []\<rparr>)) of
                         Inl e \<Rightarrow> Inl e
                       | Inr None \<Rightarrow> Inr (None, g)
                       | Inr (Some best) \<Rightarrow>
                           (case single_phase w beam_single_angles (bs_seq best) (bs_pos_map best)
                                   (bs_dropped best) g of
                              Inl e \<Rightarrow> Inl e
                            | Inr r \<Rightarrow> final_validation w r)))"

section \<open>Greedy fallback\<close>

fun greedy_requirements :: "sequence \<Rightarrow> targets \<Rightarrow> (targets \<times> angle list) option" where
  "greedy_requirements s [] = Some ([], [])"
| "greedy_requirements s ((ang, tgt) # rest) =
     (let cur = int (count_list s ang)
      in if tgt > cur then None
         else
           (case greedy_requirements s rest of
              None \<Rightarrow> None
            | Some (pair_targets, single_angles) \<Rightarrow>
                if (cur - tgt) mod 2 \<noteq> 0
                then Some ((ang, tgt + 1) # pair_targets, ang # single_angles)
                else Some ((ang, tgt) # pair_targets, single_angles)))"

definition greedy_moves :: "nat \<Rightarrow> targets \<Rightarrow> sequence \<Rightarrow> (angle \<times> nat) list" where
  "greedy_moves protect pair_targets s =
     concat (map (\<lambda>(ang, tgt).
                    if int (count_list s ang) - tgt < 2 then []
                    else map (\<lambda>left_idx. (ang, left_idx)) (pair_positions protect s ang))
               pair_targets)"

text \<open>The candidate loop of one greedy round: the first pair of the highest positive score.\<close>

fun greedy_best ::
  "weights \<Rightarrow> sequence \<Rightarrow> (angle \<times> nat) list \<Rightarrow> (real \<times> angle \<times> nat) option
     \<Rightarrow> py_error + (real \<times> angle \<times> nat) option" where
  "greedy_best w s [] best = Inr best"
| "greedy_best w s ((ang, left_idx) # moves) best =
     (case calculate_fitness w (remove_indices s [left_idx, length s - 1 - left_idx]) of
        Inl e \<Rightarrow> Inl e
      | Inr (sc, details) \<Rightarrow>
          greedy_best w s moves
            (if sc \<le> 0 then best
             else (case best of
                     None \<Rightarrow> Some (sc, ang, left_idx)
                   | Some (bsc, bang, bidx) \<Rightarrow>
                       if sc > bsc then Some (sc, ang, left_idx) else best)))"

text \<open>
  Phase 1 of the greedy fallback: \<^verbatim>\<open>while True\<close> with the guard
  \<^verbatim>\<open>safety_iter > 5000\<close>; the natural number is the number of rounds left.
\<close>

fun greedy_pairs ::
  "weights \<Rightarrow> nat \<Rightarrow> targets \<Rightarrow> nat \<Rightarrow> sequence \<Rightarrow> nat list \<Rightarrow> dropped
     \<Rightarrow> py_error + (sequence \<times> nat list \<times> dropped) option" where
  "greedy_pairs w protect pair_targets 0 s pos_map dropped_by_angle = Inr None"
| "greedy_pairs w protect pair_targets (Suc k) s pos_map dropped_by_angle =
     (if list_all (\<lambda>(ang, tgt). \<not> int (count_list s ang) > tgt) pair_targets
      then Inr (Some (s, pos_map, dropped_by_angle))
      else
        (case greedy_best w s (greedy_moves protect pair_targets s) None of
           Inl e \<Rightarrow> Inl e
         | Inr None \<Rightarrow> Inr None
         | Inr (Some (sc, ang, idx)) \<Rightarrow>
             let left_idx = min idx (length s - 1 - idx);
                 right_idx = max idx (length s - 1 - idx)
             in greedy_pairs w protect pair_targets k
                  (list_pop (list_pop s right_idx) left_idx)
                  (list_pop (list_pop pos_map right_idx) left_idx)
                  (dict_extend dropped_by_angle ang [pos_map ! left_idx, pos_map ! right_idx])))"

definition greedy_angle_target_drop ::
  "weights \<Rightarrow> sequence \<Rightarrow> targets \<Rightarrow> nat \<Rightarrow> rng
     \<Rightarrow> py_error + ((sequence \<times> real \<times> dropped) option \<times> rng)" where
  "greedy_angle_target_drop w seq_in target_counts_in protect_left_min_idx g =
     (case greedy_requirements seq_in target_counts_in of
        None \<Rightarrow> Inr (None, g)
      | Some (greedy_pair_targets, greedy_single_angles) \<Rightarrow>
          (case greedy_pairs w protect_left_min_idx greedy_pair_targets 5000 seq_in
                  [0..<length seq_in] [] of
             Inl e \<Rightarrow> Inl e
           | Inr None \<Rightarrow> Inr (None, g)
           | Inr (Some (s, pos_map, dropped_by_angle)) \<Rightarrow>
               (case single_phase w greedy_single_angles s pos_map dropped_by_angle g of
                  Inl e \<Rightarrow> Inl e
                | Inr r \<Rightarrow> final_validation w r)))"

section \<open>The search and its fallbacks\<close>

text \<open>\<^verbatim>\<open>for protect in (2, 1, 0)\<close>: beam search first, the greedy search if it finds nothing.\<close>

fun fallback_search ::
  "weights \<Rightarrow> sequence \<Rightarrow> targets \<Rightarrow> nat list \<Rightarrow> rng
     \<Rightarrow> py_error + ((sequence \<times> real \<times> dropped) option \<times> rng)" where
  "fallback_search w master full_targets [] g = Inr (None, g)"
| "fallback_search w master full_targets (protect # rest) g =
     (case beam_search_angle_target_drop w master full_targets protect 16 g of
        Inl e \<Rightarrow> Inl e
      | Inr (Some res, g') \<Rightarrow> Inr (Some res, g')
      | Inr (None, g') \<Rightarrow>
          (case greedy_angle_target_drop w master full_targets protect g' of
             Inl e \<Rightarrow> Inl e
           | Inr (Some res, g'') \<Rightarrow> Inr (Some res, g'')
           | Inr (None, g'') \<Rightarrow> fallback_search w master full_targets rest g''))"

definition angle_target_search ::
  "weights \<Rightarrow> rng \<Rightarrow> sequence \<Rightarrow> targets \<Rightarrow> (angle \<times> nat) list \<Rightarrow> drop_result" where
  "angle_target_search w g master target_ply_counts dn =
     (case angle_target_loop w master target_ply_counts
             (drop_plan_of master target_ply_counts dn) ANGLE_TARGET_DROP_ATTEMPTS
             initial_best g of
        Inl e \<Rightarrow> Inl e
      | Inr (best, g') \<Rightarrow>
          (case best_candidate best of
             Some child \<Rightarrow> Inr (child, best_score best, best_dropped_by_angle best)
           | None \<Rightarrow>
               (case fallback_search w master (full_targets_of master target_ply_counts)
                       [2, 1, 0] g' of
                  Inl e \<Rightarrow> Inl e
                | Inr (Some res, g'') \<Rightarrow> Inr res
                | Inr (None, g'') \<Rightarrow>
                    (case calculate_fitness w master of
                       Inl e \<Rightarrow> Inl e
                     | Inr (sc, details) \<Rightarrow> Inr (master, sc, [])))))"

section \<open>Multi-zone orchestrator (multi_zone_optimizer.py)\<close>

text \<open>
  A zone rectangle \<^verbatim>\<open>{"x", "y", "w", "h"}\<close> in pixels. Of the geometry that
  \<^verbatim>\<open>_compute_geometry\<close> derives, the neighbour lists are modelled; areas and edge lengths
  play no part in the connectivity check.
\<close>

record rect =
  rect_x :: real
  rect_y :: real
  rect_w :: real
  rect_h :: real

definition NEIGHBOR_THRESHOLD_PX :: real where
  "NEIGHBOR_THRESHOLD_PX = 40"

definition rects_adjacent :: "real \<times> real \<times> real \<times> real \<Rightarrow> real \<times> real \<times> real \<times> real \<Rightarrow> real \<Rightarrow> bool" where
  "rects_adjacent r1 r2 threshold =
     (case r1 of (x1, y1, x1b, y1b) \<Rightarrow> case r2 of (x2, y2, x2b, y2b) \<Rightarrow>
        let h_overlap = max 0 (min x1b x2b - max x1 x2);
            v_overlap = max 0 (min y1b y2b - max y1 y2);
            h_gap = max x1 x2 - min x1b x2b
        in if v_overlap > 0 \<and> 0 \<le> h_gap \<and> h_gap \<le> threshold then True
           else
             let v_gap = max y1 y2 - min y1b y2b
             in if h_overlap > 0 \<and> 0 \<le> v_gap \<and> v_gap \<le> threshold then True else False)"

definition corners :: "rect \<Rightarrow> real \<times> real \<times> real \<times> real" where
  "corners b = (rect_x b, rect_y b, rect_x b + rect_w b, rect_y b + rect_h b)"

text \<open>
  The double loop of \<^verbatim>\<open>_compute_geometry\<close> over \<open>i < j\<close>: an adjacent pair appends
  \<open>j\<close> to the list of \<open>i\<close> and \<open>i\<close> to the list of \<open>j\<close>.
\<close>

definition add_neighbor_pair :: "nat \<Rightarrow> nat \<Rightarrow> nat list list \<Rightarrow> nat list list" where
  "add_neighbor_pair i j nb = (let nb1 = nb[i := nb ! i @ [j]] in nb1[j := nb1 ! j @ [i]])"

definition compute_neighbors :: "rect list \<Rightarrow> nat list list" where
  "compute_neighbors bounds =
     (let n = length bounds
      in fold (\<lambda>i nb.
                 fold (\<lambda>j nb'.
                         if rects_adjacent (corners (bounds ! i)) (corners (bounds ! j))
                              NEIGHBOR_THRESHOLD_PX
                         then add_neighbor_pair i j nb' else nb')
                      [i + 1..<n] nb)
              [0..<n] (replicate n []))"

text \<open>
  The fields of \<^verbatim>\<open>MultiZoneOptimizer\<close> that the connectivity check reads. The constructor
  raises ValueError on an empty zone list (\<^verbatim>\<open>max\<close> of an empty list); the root is the
  first zone of maximal total; the neighbour lists stay empty without usable bounds.
\<close>

record multi_zone =
  zones_config :: "(int \<times> int) list list"
  zone_totals :: "int list"
  root_index :: nat
  zone_neighbors :: "nat list list"

definition list_index :: "'a list \<Rightarrow> 'a \<Rightarrow> nat" where
  "list_index xs x = length (takeWhile (\<lambda>y. y \<noteq> x) xs)"

definition init_multi_zone :: "(int \<times> int) list list \<Rightarrow> rect list option \<Rightarrow> py_error + multi_zone" where
  "init_multi_zone config bounds =
     (let totals = map (\<lambda>z. sum_list (map snd z)) config
      in if totals = [] then Inl ValueError
         else Inr \<lparr>zones_config = config,
                   zone_totals = totals,
                   root_index = list_index totals (fold max (tl totals) (hd totals)),
                   zone_neighbors =
                     (case bounds of
                        None \<Rightarrow> []
                      | Some bs \<Rightarrow> if bs \<noteq> [] \<and> length bs = length config
                                  then compute_neighbors bs else [])\<rparr>)"

text \<open>
  \<^verbatim>\<open>_check_connectivity\<close>: the inner \<^verbatim>\<open>for neighbor in self.zone_neighbors[current]\<close>
  and the \<^verbatim>\<open>while queue\<close> loop. The loop ends because every round either marks a new
  node of the graph or shortens the queue.
\<close>

fun visit_neighbors :: "nat list \<Rightarrow> nat set \<times> nat list \<Rightarrow> nat set \<times> nat list" where
  "visit_neighbors [] (visited, queue) = (visited, queue)"
| "visit_neighbors (neighbor # rest) (visited, queue) =
     (if neighbor \<notin> visited
      then visit_neighbors rest (insert neighbor visited, queue @ [neighbor])
      else visit_neighbors rest (visited, queue))"

definition graph_nodes :: "nat list list \<Rightarrow> nat set" where
  "graph_nodes g = \<Union> (set (map set g))"

function bfs_loop :: "nat list list \<Rightarrow> nat set \<Rightarrow> nat list \<Rightarrow> py_error + nat set" where
  "bfs_loop g visited [] = Inr visited"
| "bfs_loop g visited (current # queue) =
     (if current < length g
      then (case visit_neighbors (g ! current) (visited, queue) of
              (visited', queue') \<Rightarrow> bfs_loop g visited' queue')
      else Inl IndexError)"
  by pat_completeness auto
termination
proof (relation "inv_image (less_than <*lex*> less_than)
                   (\<lambda>(g, visited, queue). (card (graph_nodes g - visited), length queue))",
       goal_cases)
  case 1
  show ?case by (intro wf_inv_image wf_lex_prod wf_less_than)
next
  case (2 g visited current queue xa y)
  have grow: "V' = V \<union> set nbs \<and> (V' = V \<longrightarrow> Q' = Q)"
    if "visit_neighbors nbs (V, Q) = (V', Q')" for nbs V Q V' Q'
    using that
  proof (induction nbs arbitrary: V Q)
    case Nil
    then show ?case by simp
  next
    case (Cons a nbs)
    show ?case
    proof (cases "a \<in> V")
      case True
      with Cons.prems have "visit_neighbors nbs (V, Q) = (V', Q')" by simp
      from Cons.IH [OF this] True show ?thesis by auto
    next
      case False
      with Cons.prems have "visit_neighbors nbs (insert a V, Q @ [a]) = (V', Q')" by simp
      from Cons.IH [OF this] False show ?thesis by auto
    qed
  qed
  from 2 have "visit_neighbors (g ! current) (visited, queue) = (xa, y)" by simp
  note r = grow [OF this]
  from 2(1) have "g ! current \<in> set g" by (rule nth_mem)
  then have nodes: "set (g ! current) \<subseteq> graph_nodes g" by (auto simp: graph_nodes_def)
  show ?case
  proof (cases "xa = visited")
    case True
    with r have "y = queue" by simp
    with True show ?thesis by simp
  next
    case False
    with r have "visited \<subset> xa" by auto
    moreover from r nodes have "xa - visited \<subseteq> graph_nodes g" by auto
    ultimately have "graph_nodes g - xa \<subset> graph_nodes g - visited" by auto
    then have "card (graph_nodes g - xa) < card (graph_nodes g - visited)"
      by (intro psubset_card_mono) (simp_all add: graph_nodes_def)
    then show ?thesis by simp
  qed
qed

definition check_connectivity :: "multi_zone \<Rightarrow> py_error + (bool \<times> nat list)" where
  "check_connectivity mz =
     (if zone_neighbors mz = [] then Inr (True, [])
      else
        let n = length (zones_config mz)
        in (case bfs_loop (zone_neighbors mz) {root_index mz} [root_index mz] of
              Inl e \<Rightarrow> Inl e
            | Inr visited \<Rightarrow>
                let disconnected = [i \<leftarrow> [0..<n]. i \<notin> visited]
                in Inr (length disconnected = 0, disconnected)))"

text \<open>
  \<^verbatim>\<open>optimize_all\<close> up to the connectivity check. The dict returned on a disconnected
  graph is a record (without its message string); everything after the check, the retry
  loop with the root optimization and the drop-offs, is the argument \<open>pipeline\<close>.
\<close>

record 'z connectivity_failure =
  success :: bool
  disconnected_zones :: "nat list"
  zones :: "'z list"
  transitions :: "(nat \<times> nat \<times> nat list) list"
  failure_root_index :: nat
  drop_off_tree :: "(nat \<times> nat) list"
  neighbor_graph :: "nat list list"

datatype ('z, 'r) optimize_outcome = Failure "'z connectivity_failure" | Pipeline 'r

definition optimize_all :: "(multi_zone \<Rightarrow> py_error + 'r) \<Rightarrow> multi_zone \<Rightarrow> py_error + ('z, 'r) optimize_outcome" where
  "optimize_all pipeline mz =
     (case (if zone_neighbors mz \<noteq> [] then check_connectivity mz else Inr (True, [])) of
        Inl e \<Rightarrow> Inl e
      | Inr (is_connected, disconnected) \<Rightarrow>
          if \<not> is_connected
          then Inr (Failure \<lparr>success = False, disconnected_zones = disconnected, zones = [],
                     transitions = [], failure_root_index = root_index mz, drop_off_tree = [],
                     neighbor_graph = zone_neighbors mz\<rparr>)
          else (case pipeline mz of Inl e \<Rightarrow> Inl e | Inr r \<Rightarrow> Inr (Pipeline r)))"

text \<open>
  The neighbour graph as a relation, and the shape of the lists that the geometry builds:
  one list per zone, every entry a zone index.
\<close>

definition graph_edges :: "nat list list \<Rightarrow> (nat \<times> nat) set" where
  "graph_edges g = {(i, j). i < length g \<and> j \<in> set (g ! i)}"

definition graph_ok :: "nat \<Rightarrow> nat list list \<Rightarrow> bool" where
  "graph_ok n g \<longleftrightarrow> length g = n \<and> (\<forall>l \<in> set g. \<forall>k \<in> set l. k < n)"

text \<open>
  Three zones of 36, 32 and 24 plies; the first two rectangles touch, the third lies
  apart.
\<close>

definition sample_zones :: "(int \<times> int) list list" where
  "sample_zones = [[(0, 12), (90, 8), (45, 8), (- 45, 8)],
                   [(0, 8), (90, 8), (45, 8), (- 45, 8)],
                   [(0, 6), (90, 6), (45, 6), (- 45, 6)]]"

definition sample_bounds :: "rect list" where
  "sample_bounds = [\<lparr>rect_x = 0, rect_y = 0, rect_w = 100, rect_h = 100\<rparr>,
                    \<lparr>rect_x = 100, rect_y = 0, rect_w = 100, rect_h = 100\<rparr>,
                    \<lparr>rect_x = 500, rect_y = 500, rect_w = 100, rect_h = 100\<rparr>]"

definition sample_multi_zone :: multi_zone where
  "sample_multi_zone = \<lparr>zones_config = sample_zones, zone_totals = [36, 32, 24],
                         root_index = 0, zone_neighbors = [[1], [0], []]\<rparr>"

text \<open>An entry of the target map that step 1 rejects: above the parent's count, or negative.\<close>

definition target_bad :: "sequence \<Rightarrow> angle \<times> int \<Rightarrow> bool" where
  "target_bad master = (\<lambda>(a, t). t > int (count_list master a) \<or> t < 0)"






section \<open>The specification's wording\<close>

text \<open>
  The hard constraints as the specification words them: an endpoint equal to 0, a 0/90
  pair at adjacent indices, or (from four plies on) an outer ply that is not +45 or -45.
\<close>

definition hard_violation :: "sequence \<Rightarrow> bool" where
  "hard_violation s =
     (let n = length s
      in s ! 0 = 0 \<or> s ! (n - 1) = 0
         \<or> (\<exists>i \<in> set [0..<n - 1]. {s ! i, s ! (i + 1)} = {0, 90})
         \<or> (n \<ge> 4 \<and> (\<exists>x \<in> set [s ! 0, s ! 1, s ! (n - 2), s ! (n - 1)]. \<bar>x\<bar> \<noteq> 45)))"

text \<open>
  Rule R2 as the specification words it: the divisor is the exact half of the number of
  +45 and -45 plies.
\<close>

definition spec_balance_penalty :: "weights \<Rightarrow> sequence \<Rightarrow> real" where
  "spec_balance_penalty w s =
     (let d = \<bar>real (count_list s 45) - real (count_list s (- 45))\<bar>
      in R2 w * min 1 (d / max 1 ((real (count_list s 45) + real (count_list s (- 45))) / 2)))"

text \<open>
  The ranking total as the specification words it: the sum over the eight rules of
  \<open>max 0 (w\<^sub>k - penalty\<^sub>k)\<close>, not rounded. (For R4 the evaluator computes the score and
  derives the penalty as weight minus score.)
\<close>

definition spec_exact_total :: "weights \<Rightarrow> sequence \<Rightarrow> real" where
  "spec_exact_total w s =
     max 0 (R1 w - check_symmetry_distance_weighted w s)
     + max 0 (R2 w - check_balance_45 w s)
     + max 0 (R3 w - check_percentage_rule w s)
     + max 0 (R4 w - (R4 w - check_external_plies w s))
     + max 0 (R5 w - check_distribution_variance w s)
     + max 0 (R6 w - check_grouping w s 3)
     + max 0 (R7 w - check_buckling w s)
     + max 0 (R8 w - check_lateral_bending w s)"

section \<open>Properties of the rule evaluator\<close>

lemma pair_0_90_iff: "{a, b} = {0, 90::int} \<longleftrightarrow> (a = 0 \<and> b = 90) \<or> (a = 90 \<and> b = 0)"
  by (auto simp: doubleton_eq_iff)

lemma find_adjacent_0_90_None:
  "find_adjacent_0_90 k s = None \<longleftrightarrow>
     \<not> (\<exists>i \<in> set [0..<length s - 1]. {s ! i, s ! (i + 1)} = {0, 90})"
proof (induction k s rule: find_adjacent_0_90.induct)
  case (1 i a b xs)
  have "(\<exists>j<Suc (length xs). {(a # b # xs) ! j, (b # xs) ! j} = {0, 90}) \<longleftrightarrow>
        {a, b} = {0, 90} \<or> (\<exists>j<length xs. {(b # xs) ! j, xs ! j} = {0, 90})"
    (is "?L \<longleftrightarrow> ?R")
  proof
    assume ?L
    then obtain j where j: "j < Suc (length xs)" "{(a # b # xs) ! j, (b # xs) ! j} = {0, 90}"
      by blast
    show ?R
    proof (cases j)
      case 0
      with j show ?thesis by simp
    next
      case (Suc m)
      with j have "m < length xs" "{(b # xs) ! m, xs ! m} = {0, 90}" by simp_all
      then show ?thesis by blast
    qed
  next
    assume ?R
    then show ?L
    proof
      assume "{a, b} = {0, 90}"
      then have "{(a # b # xs) ! 0, (b # xs) ! 0} = {0, 90}" by simp
      then show ?L by blast
    next
      assume "\<exists>j<length xs. {(b # xs) ! j, xs ! j} = {0, 90}"
      then obtain j where "j < length xs" "{(b # xs) ! j, xs ! j} = {0, 90}" by blast
      then have "Suc j < Suc (length xs)" "{(a # b # xs) ! Suc j, (b # xs) ! Suc j} = {0, 90}"
        by simp_all
      then show ?L by blast
    qed
  qed
  moreover have "[0..<length (a # b # xs) - 1] = [0..<Suc (length xs)]" by simp
  moreover have "[0..<length (b # xs) - 1] = [0..<length xs]" by simp
  ultimately show ?case
    using 1 by (simp add: pair_0_90_iff Bex_def del: upt_Suc) 
qed simp_all

lemma py_get_first: "s \<noteq> [] \<Longrightarrow> py_get s 0 = Inr (s ! 0)"
  by (simp add: py_get_def)

lemma py_get_last: "s \<noteq> [] \<Longrightarrow> py_get s (- 1) = Inr (s ! (length s - 1))"
  by (cases s) (auto simp: py_get_def nat_diff_distrib' algebra_simps)

lemma find_outer_None:
  "List.find (\<lambda>(idx, ply). \<bar>ply\<bar> \<noteq> (45::int)) (List.enumerate 0 [a, b, c, d]) = None
     \<longleftrightarrow> \<not> (\<exists>x \<in> set [a, b, c, d]. \<bar>x\<bar> \<noteq> 45)"
  by (simp add: enumerate_eq_zip upt_rec find_None_iff)

lemma calculate_fitness_soft:
  assumes "s \<noteq> []" "\<not> hard_violation s"
  shows "calculate_fitness w s = Inr (soft_constraints w s)"
proof -
  from assms have a: "s ! 0 \<noteq> 0" "s ! (length s - 1) \<noteq> 0"
    and b: "find_adjacent_0_90 0 s = None"
    and c: "length s \<ge> 4 \<Longrightarrow>
       List.find (\<lambda>(idx, ply). \<bar>ply\<bar> \<noteq> 45)
         (List.enumerate 0 [s ! 0, s ! 1, s ! (length s - 2), s ! (length s - 1)]) = None"
    unfolding find_adjacent_0_90_None find_outer_None
    by (auto simp: hard_violation_def Let_def)
  show ?thesis
    using a b c assms(1)
    by (simp add: calculate_fitness_def py_get_first py_get_last)
qed

lemma calculate_fitness_hard:
  assumes "s \<noteq> []" "hard_violation s"
  shows "\<exists>name r. calculate_fitness w s = Inr (hard_fail name r)"
proof -
  from assms(2) have
    "s ! 0 = 0 \<or> s ! (length s - 1) = 0 \<or> find_adjacent_0_90 0 s \<noteq> None
     \<or> (length s \<ge> 4 \<and>
         List.find (\<lambda>(idx, ply). \<bar>ply\<bar> \<noteq> 45)
           (List.enumerate 0 [s ! 0, s ! 1, s ! (length s - 2), s ! (length s - 1)]) \<noteq> None)"
    unfolding find_adjacent_0_90_None find_outer_None
    by (auto simp: hard_violation_def Let_def)
  then show ?thesis
    using assms(1)
    by (auto simp: calculate_fitness_def py_get_first py_get_last split: option.splits)
qed

lemma soft_constraints_rule_names:
  "map fst (rules (snd (soft_constraints w s))) =
     [''R1'', ''R2'', ''R3'', ''R4'', ''R5'', ''R6'', ''R7'', ''R8'']"
  by (simp add: soft_constraints_def Let_def)

lemma calculate_fitness_returns:
  assumes "s \<noteq> []"
  shows "\<exists>total bd. calculate_fitness w s = Inr (total, bd)"
proof (cases "hard_violation s")
  case True
  from calculate_fitness_hard [OF assms True, of w] show ?thesis
    by (auto simp: hard_fail_def)
next
  case False
  from calculate_fitness_soft [OF assms False, of w] show ?thesis
    by (cases "soft_constraints w s") auto
qed

text \<open>
  C1. For a non-empty sequence, \<open>calculate_fitness\<close> returns total 0 with a breakdown of
  exactly one rule entry if and only if the sequence violates a hard constraint; in that
  case the result is the synthetic hard-fail value, in which no soft rule and no weight
  occurs.
\<close>

theorem hard_fail_iff_violation:
  assumes "s \<noteq> []"
  shows "((\<exists>bd. calculate_fitness w s = Inr (0, bd) \<and> length (rules bd) = 1)
           \<longleftrightarrow> hard_violation s)
         \<and> (hard_violation s \<longrightarrow> (\<exists>name r. calculate_fitness w s = Inr (hard_fail name r)))"
proof (cases "hard_violation s")
  case True
  from calculate_fitness_hard [OF assms True, of w] obtain name r
    where "calculate_fitness w s = Inr (hard_fail name r)" by blast
  with True show ?thesis by (auto simp: hard_fail_def)
next
  case False
  have "length (rules (snd (soft_constraints w s))) = 8"
    using soft_constraints_rule_names [of w s, THEN arg_cong, of length] by simp
  with False calculate_fitness_soft [OF assms False, of w] show ?thesis by auto
qed

theorem hard_fail_iff_violation_witness:
  "[0, 45] \<noteq> ([] :: sequence) \<and> hard_violation [0, 45]
   \<and> (\<exists>bd. calculate_fitness WEIGHTS [0, 45] = Inr (0, bd) \<and> length (rules bd) = 1)"
  using hard_fail_iff_violation [of "[0, 45]" WEIGHTS]
  by (simp add: hard_violation_def)

text \<open>
  C6. The claim gives the R2 divisor as the exact half of the number of +45 and -45
  plies. \<open>_check_balance_45\<close> divides by \<^verbatim>\<open>max(1, total_45_count // 2)\<close>, the floored
  half: with two +45 and one -45 ply the code charges the whole weight, the claimed
  formula two thirds of it.
\<close>

theorem balance_exact_half_counterexample:
  "check_balance_45 WEIGHTS [45, 45, - 45] = 12
   \<and> spec_balance_penalty WEIGHTS [45, 45, - 45] = 8"
  by (simp add: check_balance_45_def spec_balance_penalty_def WEIGHTS_def)

text \<open>
  C6, amended. For every sequence and weight map the R2 penalty is the weight times
  \<open>min 1 (d / max 1 (floor of half the number of +45 and -45 plies))\<close>, where \<open>d\<close> is
  the absolute difference of the two counts.
\<close>

theorem balance_floored_half:
  "check_balance_45 w s =
     R2 w * min 1 (real_of_int \<bar>int (count_list s 45) - int (count_list s (- 45))\<bar>
                    / real (max 1 ((count_list s 45 + count_list s (- 45)) div 2)))"
  by (simp add: check_balance_45_def Let_def)




subsection \<open>Rounding and the bounds of the penalties\<close>



lemma round_half_even_of_int [simp]: "round_half_even (of_int k) = k"
  by (simp add: round_half_even_def)


lemma py_round2_hundredth: "py_round2 (of_int k / 100) = of_int k / 100"
  by (simp add: py_round2_def)
















lemma WEIGHTS_fields:
  "R1 WEIGHTS = 18" "R2 WEIGHTS = 12" "R3 WEIGHTS = 13" "R4 WEIGHTS = 12"
  "R5 WEIGHTS = 14" "R6 WEIGHTS = 41 / 2" "R7 WEIGHTS = 7 / 2" "R8 WEIGHTS = 7"
  by (simp_all add: WEIGHTS_def)

lemma soft_constraints_rules:
  "soft_constraints w s =
     (let e1 = soft_entry (R1 w) (max 0 (R1 w - check_symmetry_distance_weighted w s))
                 (check_symmetry_distance_weighted w s) Asymmetry;
          e2 = soft_entry (R2 w) (max 0 (R2 w - check_balance_45 w s))
                 (check_balance_45 w s) Unbalanced45;
          e3 = soft_entry (R3 w) (max 0 (R3 w - check_percentage_rule w s))
                 (check_percentage_rule w s) PercentageOutside;
          e4 = soft_entry (R4 w) (check_external_plies w s)
                 (R4 w - check_external_plies w s) ExternalNotIdeal;
          e5 = soft_entry (R5 w) (max 0 (R5 w - check_distribution_variance w s))
                 (check_distribution_variance w s) DistributionNotUniform;
          e6 = soft_entry (R6 w) (max 0 (R6 w - check_grouping w s 3))
                 (check_grouping w s 3)
                 (GroupCounts (groups_len_2 (grouping_stats_of s)) (groups_len_3 (grouping_stats_of s))
                    (groups_len_ge4 (grouping_stats_of s)));
          e7 = soft_entry (R7 w) (max 0 (R7 w - check_buckling w s))
                 (check_buckling w s) Near45MidPlane;
          e8 = soft_entry (R8 w) (max 0 (R8 w - check_lateral_bending w s))
                 (check_lateral_bending w s) Near90MidPlane;
          total = score e1 + score e2 + score e3 + score e4 + score e5 + score e6 + score e7 + score e8
      in (total, \<lparr>total_score = py_round2 total, max_score = 100,
                  rules = [(''R1'', e1), (''R2'', e2), (''R3'', e3), (''R4'', e4),
                           (''R5'', e5), (''R6'', e6), (''R7'', e7), (''R8'', e8)]\<rparr>))"
  by (simp add: soft_constraints_def Let_def add.assoc)


subsection \<open>The sample sequence 45, -45, -45, 45\<close>

lemma sample_symmetry: "check_symmetry_distance_weighted WEIGHTS [45, - 45, - 45, 45] = 0"
  by code_simp
lemma sample_balance: "check_balance_45 WEIGHTS [45, - 45, - 45, 45] = 0"
  by code_simp
lemma sample_percentage: "check_percentage_rule WEIGHTS [45, - 45, - 45, 45] = 13 / 2"
  by code_simp
lemma sample_external: "check_external_plies WEIGHTS [45, - 45, - 45, 45] = 12"
  by code_simp
lemma sample_distribution: "check_distribution_variance WEIGHTS [45, - 45, - 45, 45] = 28 / 45"
  by (simp add: check_distribution_variance_def distribution_angle_penalty_def indices_where_def
        np_std_def np_mean_def WEIGHTS_def Let_def upt_rec)
lemma sample_grouping: "check_grouping WEIGHTS [45, - 45, - 45, 45] 3 = 41 / 12"
  by code_simp
lemma sample_buckling: "check_buckling WEIGHTS [45, - 45, - 45, 45] = 0"
  by (simp add: check_buckling_def indices_where_def mid_distance_def WEIGHTS_def Let_def upt_rec)
lemma sample_lateral: "check_lateral_bending WEIGHTS [45, - 45, - 45, 45] = 0"
  by (simp add: check_lateral_bending_def indices_where_def mid_distance_def WEIGHTS_def Let_def upt_rec)
lemma sample_round_r5: "py_round2 (602 / 45) = 669 / 50" 
  by (simp add: py_round2_def round_half_even_def Let_def)
lemma sample_round_r6: "py_round2 (205 / 12) = 427 / 25" 
  by (simp add: py_round2_def round_half_even_def Let_def)
lemma sample_round_exact: "py_round2 18 = 18" "py_round2 12 = 12" "py_round2 (13/2) = 13/2" "py_round2 (7/2) = 7/2" "py_round2 7 = 7"
  by (simp_all add: py_round2_def round_half_even_def Let_def)

lemma sample_passes_hard: "\<not> hard_violation [45, - 45, - 45, 45]"
  by code_simp

lemma sample_fitness:
  "calculate_fitness WEIGHTS [45, - 45, - 45, 45] = Inr (soft_constraints WEIGHTS [45, - 45, - 45, 45])"
  "fst (soft_constraints WEIGHTS [45, - 45, - 45, 45]) = 4473 / 50"
proof -
  show "calculate_fitness WEIGHTS [45, - 45, - 45, 45] = Inr (soft_constraints WEIGHTS [45, - 45, - 45, 45])"
    by (rule calculate_fitness_soft [OF _ sample_passes_hard]) simp
  show "fst (soft_constraints WEIGHTS [45, - 45, - 45, 45]) = 4473 / 50"
    unfolding soft_constraints_rules Let_def sample_symmetry sample_balance sample_percentage
      sample_external sample_distribution sample_grouping sample_buckling sample_lateral
      WEIGHTS_fields
    by (simp add: soft_entry_def sample_round_r5 sample_round_r6 sample_round_exact)
qed







text \<open>
  C9. The claim says the total returned for ranking is the un-rounded sum of the rule
  scores. \<open>calculate_fitness\<close> sums the \<^verbatim>\<open>score\<close> fields of the breakdown, which are
  already rounded to two decimals: for 45, -45, -45, 45 it returns 89.46, and the
  un-rounded sum is 16103/180 = 89.4611...
\<close>

theorem ranking_total_exact_counterexample:
  "calculate_fitness WEIGHTS [45, - 45, - 45, 45] = Inr (soft_constraints WEIGHTS [45, - 45, - 45, 45])
   \<and> fst (soft_constraints WEIGHTS [45, - 45, - 45, 45]) = 4473 / 50
   \<and> spec_exact_total WEIGHTS [45, - 45, - 45, 45] = 16103 / 180"
proof -
  have "spec_exact_total WEIGHTS [45, - 45, - 45, 45] = 16103 / 180"
    unfolding spec_exact_total_def sample_symmetry sample_balance sample_percentage
      sample_external sample_distribution sample_grouping sample_buckling sample_lateral
      WEIGHTS_fields
    by simp
  with sample_fitness show ?thesis by simp
qed

text \<open>
  C9, amended. For every sequence that passes the hard constraints, the total returned
  for ranking is the sum of the eight rule scores after each has been rounded to two
  decimals; the \<^verbatim>\<open>total_score\<close> of the breakdown is that sum rounded once more.
\<close>

theorem ranking_total_sums_rounded_scores:
  assumes "s \<noteq> []" "\<not> hard_violation s"
  shows "\<exists>bd. calculate_fitness w s =
             Inr (py_round2 (max 0 (R1 w - check_symmetry_distance_weighted w s))
                  + py_round2 (max 0 (R2 w - check_balance_45 w s))
                  + py_round2 (max 0 (R3 w - check_percentage_rule w s))
                  + py_round2 (check_external_plies w s)
                  + py_round2 (max 0 (R5 w - check_distribution_variance w s))
                  + py_round2 (max 0 (R6 w - check_grouping w s 3))
                  + py_round2 (max 0 (R7 w - check_buckling w s))
                  + py_round2 (max 0 (R8 w - check_lateral_bending w s)), bd)
           \<and> total_score bd =
               py_round2 (py_round2 (max 0 (R1 w - check_symmetry_distance_weighted w s))
                  + py_round2 (max 0 (R2 w - check_balance_45 w s))
                  + py_round2 (max 0 (R3 w - check_percentage_rule w s))
                  + py_round2 (check_external_plies w s)
                  + py_round2 (max 0 (R5 w - check_distribution_variance w s))
                  + py_round2 (max 0 (R6 w - check_grouping w s 3))
                  + py_round2 (max 0 (R7 w - check_buckling w s))
                  + py_round2 (max 0 (R8 w - check_lateral_bending w s)))"
  unfolding calculate_fitness_soft [OF assms] soft_constraints_rules Let_def
  by (simp add: soft_entry_def)

theorem ranking_total_sums_rounded_scores_witness:
  "[45, - 45, - 45, 45] \<noteq> ([] :: sequence) \<and> \<not> hard_violation [45, - 45, - 45, 45]
   \<and> (\<exists>bd. calculate_fitness WEIGHTS [45, - 45, - 45, 45] = Inr (4473 / 50, bd)
          \<and> total_score bd = 4473 / 50)"
proof -
  have ne: "[45, - 45, - 45, 45] \<noteq> ([] :: sequence)" by simp
  have rr: "py_round2 (4473 / 50) = 4473 / 50"
    using py_round2_hundredth [of 8946] by simp
  from ranking_total_sums_rounded_scores [OF ne sample_passes_hard, of WEIGHTS]
  show ?thesis
    unfolding sample_symmetry sample_balance sample_percentage sample_external
      sample_distribution sample_grouping sample_buckling sample_lateral WEIGHTS_fields
    using ne sample_passes_hard
    by (simp add: sample_round_r5 sample_round_r6 sample_round_exact rr)
qed

section \<open>Properties of the drop-off engine\<close>

lemma validate_targets_None:
  "validate_targets master ts = None \<longleftrightarrow>
     (\<forall>(a, t) \<in> set ts. 0 \<le> t \<and> t \<le> int (count_list master a))"
  by (induction ts) (auto simp: Let_def split: if_splits)

lemma validate_targets_Some:
  "validate_targets master ts = Some e \<longleftrightarrow>
     (\<exists>pre a t post. ts = pre @ (a, t) # post
        \<and> (\<forall>(b, u) \<in> set pre. 0 \<le> u \<and> u \<le> int (count_list master b))
        \<and> (if t > int (count_list master a) then e = TargetExceedsParent a t (int (count_list master a))
            else t < 0 \<and> e = TargetNegative a))"
proof (induction ts)
  case Nil
  then show ?case by simp
next
  case (Cons x ts)
  obtain a t where x: "x = (a, t)" by (cases x)
  show ?case
  proof (cases "0 \<le> t \<and> t \<le> int (count_list master a)")
    case True
    then have v: "validate_targets master (x # ts) = validate_targets master ts"
      by (auto simp: x Let_def)
    show ?thesis unfolding v Cons.IH
    proof (intro iffI; elim exE conjE)
      fix pre b u post
      assume "ts = pre @ (b, u) # post" 
        "\<forall>(b, u) \<in> set pre. 0 \<le> u \<and> u \<le> int (count_list master b)"
        "if u > int (count_list master b) then e = TargetExceedsParent b u (int (count_list master b))
            else u < 0 \<and> e = TargetNegative b"
      then show "\<exists>pre a t post. x # ts = pre @ (a, t) # post
        \<and> (\<forall>(b, u) \<in> set pre. 0 \<le> u \<and> u \<le> int (count_list master b))
        \<and> (if t > int (count_list master a) then e = TargetExceedsParent a t (int (count_list master a))
            else t < 0 \<and> e = TargetNegative a)"
        using True by (intro exI [of _ "x # pre"] exI [of _ b] exI [of _ u] exI [of _ post]) (simp add: x)
    next
      fix pre b u post
      assume a: "x # ts = pre @ (b, u) # post" 
        "\<forall>(b, u) \<in> set pre. 0 \<le> u \<and> u \<le> int (count_list master b)"
        "if u > int (count_list master b) then e = TargetExceedsParent b u (int (count_list master b))
            else u < 0 \<and> e = TargetNegative b"
      show "\<exists>pre a t post. ts = pre @ (a, t) # post
        \<and> (\<forall>(b, u) \<in> set pre. 0 \<le> u \<and> u \<le> int (count_list master b))
        \<and> (if t > int (count_list master a) then e = TargetExceedsParent a t (int (count_list master a))
            else t < 0 \<and> e = TargetNegative a)"
      proof (cases pre)
        case Nil
        with a True show ?thesis by (auto simp: x split: if_splits)
      next
        case (Cons y pre')
        with a show ?thesis
          by (intro exI [of _ pre'] exI [of _ b] exI [of _ u] exI [of _ post]) simp
      qed
    qed
  next
    case False
    then have v: "validate_targets master (x # ts) =
        Some (if t > int (count_list master a) then TargetExceedsParent a t (int (count_list master a))
              else TargetNegative a)"
      by (auto simp: x Let_def)
    show ?thesis unfolding v
    proof (intro iffI)
      assume "Some (if t > int (count_list master a) then TargetExceedsParent a t (int (count_list master a))
              else TargetNegative a) = Some e"
      then show "\<exists>pre a t post. x # ts = pre @ (a, t) # post
        \<and> (\<forall>(b, u) \<in> set pre. 0 \<le> u \<and> u \<le> int (count_list master b))
        \<and> (if t > int (count_list master a) then e = TargetExceedsParent a t (int (count_list master a))
            else t < 0 \<and> e = TargetNegative a)"
        using False 
        by (intro exI [of _ "[]"] exI [of _ a] exI [of _ t] exI [of _ ts]) (auto simp: x split: if_splits)
    next
      assume "\<exists>pre a t post. x # ts = pre @ (a, t) # post
        \<and> (\<forall>(b, u) \<in> set pre. 0 \<le> u \<and> u \<le> int (count_list master b))
        \<and> (if t > int (count_list master a) then e = TargetExceedsParent a t (int (count_list master a))
            else t < 0 \<and> e = TargetNegative a)"
      then obtain pre b u post where a: "x # ts = pre @ (b, u) # post" 
        "\<forall>(b, u) \<in> set pre. 0 \<le> u \<and> u \<le> int (count_list master b)"
        "if u > int (count_list master b) then e = TargetExceedsParent b u (int (count_list master b))
            else u < 0 \<and> e = TargetNegative b" by blast
      show "Some (if t > int (count_list master a) then TargetExceedsParent a t (int (count_list master a))
              else TargetNegative a) = Some e"
      proof (cases pre)
        case Nil
        with a show ?thesis by (auto simp: x split: if_splits)
      next
        case (Cons y pre')
        with a False show ?thesis by (auto simp: x)
      qed
    qed
  qed
qed

lemma initial_drops_needed_zero:
  assumes "\<forall>(a, t) \<in> set ts. t = int (count_list master a)"
  shows "initial_drops_needed master ts = []"
  using assms by (induction ts) (auto simp: initial_drops_needed_def)

lemma validate_targets_first_bad:
  assumes "\<exists>x \<in> set ts. target_bad master x"
  shows "\<exists>pre a t post. ts = pre @ (a, t) # post \<and> (\<forall>x \<in> set pre. \<not> target_bad master x)
           \<and> target_bad master (a, t)
           \<and> validate_targets master ts =
               Some (if t > int (count_list master a)
                     then TargetExceedsParent a t (int (count_list master a))
                     else TargetNegative a)"
proof -
  from assms have "validate_targets master ts \<noteq> None"
    unfolding validate_targets_None by (fastforce simp: target_bad_def)
  then obtain e where e: "validate_targets master ts = Some e" by blast
  then obtain pre a t post where p: "ts = pre @ (a, t) # post"
      "\<forall>(b, u) \<in> set pre. 0 \<le> u \<and> u \<le> int (count_list master b)"
      "if t > int (count_list master a) then e = TargetExceedsParent a t (int (count_list master a))
            else t < 0 \<and> e = TargetNegative a"
    unfolding validate_targets_Some by blast
  from p(2) have "\<forall>x \<in> set pre. \<not> target_bad master x" by (auto simp: target_bad_def)
  moreover from p(3) have "target_bad master (a, t)" by (auto simp: target_bad_def split: if_splits)
  moreover from p(3) e have "validate_targets master ts =
               Some (if t > int (count_list master a)
                     then TargetExceedsParent a t (int (count_list master a))
                     else TargetNegative a)" by (auto split: if_splits)
  ultimately show ?thesis using p(1) by blast
qed

subsection \<open>The errors of the search\<close>

text \<open>
  The search raises nothing of its own: an error that leaves it comes from
  \<open>calculate_fitness\<close>, which raises IndexError on the empty sequence only.
\<close>

lemma calculate_fitness_error: "calculate_fitness w s = Inl e \<Longrightarrow> e = IndexError"
  by (auto simp: calculate_fitness_def py_get_def split: if_splits sum.splits option.splits)

lemma angle_target_attempt_error:
  "angle_target_attempt w master ts p best g = Inl e \<Longrightarrow> e = IndexError"
  by (auto simp: angle_target_attempt_def dest: calculate_fitness_error
           split: prod.splits option.splits sum.splits)

lemma angle_target_loop_error:
  "angle_target_loop w master ts p k best g = Inl e \<Longrightarrow> e = IndexError"
  by (induction k arbitrary: best g)
     (auto dest: angle_target_attempt_error split: sum.splits prod.splits)

lemma expand_state_error: "expand_state w st moves = Inl e \<Longrightarrow> e = IndexError"
  by (induction moves)
     (auto simp: Let_def dest: calculate_fitness_error split: sum.splits prod.splits if_splits)

lemma expand_beam_error: "expand_beam w protect beam = Inl e \<Longrightarrow> e = IndexError"
  by (induction beam) (auto dest: expand_state_error split: sum.splits)

lemma beam_steps_error: "beam_steps w protect bw k beam = Inl e \<Longrightarrow> e = IndexError"
  by (induction k arbitrary: beam)
     (auto simp: Let_def dest: expand_beam_error split: sum.splits if_splits)

lemma best_combo_error: "best_combo w s combos acc g = Inl e \<Longrightarrow> e = IndexError"
  by (induction combos arbitrary: acc g)
     (auto dest: calculate_fitness_error split: sum.splits prod.splits if_splits)

lemma best_single_error: "best_single w s is acc = Inl e \<Longrightarrow> e = IndexError"
  by (induction "is" arbitrary: acc)
     (auto dest: calculate_fitness_error split: sum.splits prod.splits if_splits)

lemma single_phase_error:
  "single_phase w single_angles s pos_map d g = Inl e \<Longrightarrow> e = IndexError"
  by (auto simp: single_phase_def Let_def dest: best_combo_error best_single_error
           split: sum.splits prod.splits option.splits if_splits)

lemma final_validation_error: "final_validation w r = Inl e \<Longrightarrow> e = IndexError"
  by (auto simp: final_validation_def dest: calculate_fitness_error
           split: sum.splits prod.splits option.splits if_splits)

lemma beam_search_error:
  "beam_search_angle_target_drop w s ts protect bw g = Inl e \<Longrightarrow> e = IndexError"
  by (auto simp: beam_search_angle_target_drop_def Let_def
           dest: calculate_fitness_error beam_steps_error single_phase_error final_validation_error
           split: sum.splits prod.splits option.splits if_splits)

lemma greedy_best_error: "greedy_best w s moves best = Inl e \<Longrightarrow> e = IndexError"
  by (induction moves arbitrary: best)
     (auto dest: calculate_fitness_error split: sum.splits prod.splits option.splits if_splits)

lemma greedy_pairs_error:
  "greedy_pairs w protect pts k s pos_map d = Inl e \<Longrightarrow> e = IndexError"
  by (induction k arbitrary: s pos_map d)
     (auto simp: Let_def dest: greedy_best_error split: sum.splits prod.splits option.splits if_splits)

lemma greedy_error:
  "greedy_angle_target_drop w s ts protect g = Inl e \<Longrightarrow> e = IndexError"
  by (auto simp: greedy_angle_target_drop_def
           dest: greedy_pairs_error single_phase_error final_validation_error
           split: sum.splits prod.splits option.splits if_splits)

lemma fallback_search_error:
  "fallback_search w master ft ps g = Inl e \<Longrightarrow> e = IndexError"
  by (induction ps arbitrary: g)
     (auto dest: beam_search_error greedy_error split: sum.splits prod.splits option.splits)

lemma angle_target_search_error:
  "angle_target_search w g master ts dn = Inl e \<Longrightarrow> e = IndexError"
  by (auto simp: angle_target_search_def simp del: fallback_search.simps
           dest: angle_target_loop_error fallback_search_error calculate_fitness_error
           split: sum.splits prod.splits option.splits)

lemma validate_targets_prefix:
  assumes "\<forall>x \<in> set pre. \<not> target_bad master x"
  shows "validate_targets master (pre @ rest) = validate_targets master rest"
  using assms by (induction pre) (auto simp: target_bad_def Let_def split: if_splits)

lemma validate_targets_exceeds_iff:
  "validate_targets master ts = Some (TargetExceedsParent a t c) \<longleftrightarrow>
     (\<exists>pre post. ts = pre @ (a, t) # post \<and> (\<forall>x \<in> set pre. \<not> target_bad master x)
        \<and> int (count_list master a) < t \<and> c = int (count_list master a))"
proof
  assume "validate_targets master ts = Some (TargetExceedsParent a t c)"
  then obtain pre b u post where p: "ts = pre @ (b, u) # post"
      "\<forall>(b, u) \<in> set pre. 0 \<le> u \<and> u \<le> int (count_list master b)"
      "if u > int (count_list master b)
       then TargetExceedsParent a t c = TargetExceedsParent b u (int (count_list master b))
       else u < 0 \<and> TargetExceedsParent a t c = TargetNegative b"
    unfolding validate_targets_Some by blast
  from p(3) have "b = a" "u = t" "c = int (count_list master a)" "int (count_list master a) < t"
    by (auto split: if_splits)
  moreover from p(2) have "\<forall>x \<in> set pre. \<not> target_bad master x"
    by (auto simp: target_bad_def)
  ultimately show "\<exists>pre post. ts = pre @ (a, t) # post \<and> (\<forall>x \<in> set pre. \<not> target_bad master x)
        \<and> int (count_list master a) < t \<and> c = int (count_list master a)"
    using p(1) by blast
next
  assume "\<exists>pre post. ts = pre @ (a, t) # post \<and> (\<forall>x \<in> set pre. \<not> target_bad master x)
        \<and> int (count_list master a) < t \<and> c = int (count_list master a)"
  then obtain pre post where p: "ts = pre @ (a, t) # post"
      "\<forall>x \<in> set pre. \<not> target_bad master x" "int (count_list master a) < t"
      "c = int (count_list master a)" by blast
  show "validate_targets master ts = Some (TargetExceedsParent a t c)"
    unfolding p(1) validate_targets_prefix [OF p(2)] using p(3,4) by simp
qed

lemma validate_targets_negative_iff:
  "validate_targets master ts = Some (TargetNegative a) \<longleftrightarrow>
     (\<exists>pre t post. ts = pre @ (a, t) # post \<and> (\<forall>x \<in> set pre. \<not> target_bad master x)
        \<and> t \<le> int (count_list master a) \<and> t < 0)"
proof
  assume "validate_targets master ts = Some (TargetNegative a)"
  then obtain pre b u post where p: "ts = pre @ (b, u) # post"
      "\<forall>(b, u) \<in> set pre. 0 \<le> u \<and> u \<le> int (count_list master b)"
      "if u > int (count_list master b)
       then TargetNegative a = TargetExceedsParent b u (int (count_list master b))
       else u < 0 \<and> TargetNegative a = TargetNegative b"
    unfolding validate_targets_Some by blast
  from p(3) have "b = a" "u \<le> int (count_list master a)" "u < 0"
    by (auto split: if_splits)
  moreover from p(2) have "\<forall>x \<in> set pre. \<not> target_bad master x"
    by (auto simp: target_bad_def)
  ultimately show "\<exists>pre t post. ts = pre @ (a, t) # post \<and> (\<forall>x \<in> set pre. \<not> target_bad master x)
        \<and> t \<le> int (count_list master a) \<and> t < 0"
    using p(1) by blast
next
  assume "\<exists>pre t post. ts = pre @ (a, t) # post \<and> (\<forall>x \<in> set pre. \<not> target_bad master x)
        \<and> t \<le> int (count_list master a) \<and> t < 0"
  then obtain pre t post where p: "ts = pre @ (a, t) # post"
      "\<forall>x \<in> set pre. \<not> target_bad master x" "t \<le> int (count_list master a)" "t < 0"
    by blast
  show "validate_targets master ts = Some (TargetNegative a)"
    unfolding p(1) validate_targets_prefix [OF p(2)] using p(3,4) by simp
qed

lemma validate_targets_error_kind:
  assumes "validate_targets master ts = Some e"
  shows "(\<exists>a t c. e = TargetExceedsParent a t c) \<or> (\<exists>a. e = TargetNegative a)"
  using assms unfolding validate_targets_Some by (auto split: if_splits)

lemma validate_targets_bad:
  "validate_targets master ts \<noteq> None \<longleftrightarrow> (\<exists>x \<in> set ts. target_bad master x)"
  unfolding validate_targets_None by (fastforce simp: target_bad_def)

lemma valid_targets_error:
  assumes "validate_targets master ts = None"
    and "optimize_drop_with_angle_targets w (angle_target_search w g) master ts = Inl e"
  shows "e = IndexError"
  using assms
  by (auto simp: optimize_drop_with_angle_targets_def Let_def
           dest: calculate_fitness_error angle_target_search_error
           split: if_splits sum.splits prod.splits)

text \<open>
  C4. The claim says the "hedef ... ama mevcut sadece ..." error is raised if and only
  if some target exceeds the parent's count. Step 1 tests the entries in the order of
  the map and, per entry, the excess before the sign: when a negative entry comes before
  the first excessive one, the error raised is the "negatif" one.
\<close>

theorem target_error_message_counterexample:
  "optimize_drop_with_angle_targets WEIGHTS (angle_target_search WEIGHTS [])
     [45, - 45, - 45, 45] [(0, - 1), (45, 3)] = Inl (TargetNegative 0)
   \<and> int (count_list ([45, - 45, - 45, 45] :: sequence) 45) < 3"
  by (simp add: optimize_drop_with_angle_targets_def)

text \<open>
  C4, amended. The call raises the "hedef" error for angle \<open>a\<close>, target \<open>t\<close> and count
  \<open>c\<close> if and only if \<open>(a, t)\<close> is the first entry of the map, in its order, that exceeds
  the parent's count or is negative, and it exceeds the count \<open>c\<close>; it raises the
  "negatif" error for \<open>a\<close> if and only if that first entry is one for \<open>a\<close> that is negative
  and does not exceed the count. So one of the two target errors is raised if and only
  if some entry exceeds the parent's count or is negative, and then the result is the
  same for every weight map and every search (no search is attempted). Any other error
  of the call is the IndexError of evaluating an empty sequence, which needs no
  offending entry.
\<close>

theorem angle_target_errors:
  "(optimize_drop_with_angle_targets w (angle_target_search w g) master ts
        = Inl (TargetExceedsParent a t c)
      \<longleftrightarrow> (\<exists>pre post. ts = pre @ (a, t) # post \<and> (\<forall>x \<in> set pre. \<not> target_bad master x)
             \<and> int (count_list master a) < t \<and> c = int (count_list master a)))
   \<and> (optimize_drop_with_angle_targets w (angle_target_search w g) master ts
        = Inl (TargetNegative a)
      \<longleftrightarrow> (\<exists>pre u post. ts = pre @ (a, u) # post \<and> (\<forall>x \<in> set pre. \<not> target_bad master x)
             \<and> u \<le> int (count_list master a) \<and> u < 0))
   \<and> ((\<exists>b u d. optimize_drop_with_angle_targets w (angle_target_search w g) master ts
                  = Inl (TargetExceedsParent b u d))
        \<or> (\<exists>b. optimize_drop_with_angle_targets w (angle_target_search w g) master ts
                  = Inl (TargetNegative b))
      \<longleftrightarrow> (\<exists>x \<in> set ts. target_bad master x))
   \<and> ((\<exists>x \<in> set ts. target_bad master x) \<longrightarrow>
        (\<forall>w' search. optimize_drop_with_angle_targets w' search master ts
           = optimize_drop_with_angle_targets w (angle_target_search w g) master ts))"
proof (cases "validate_targets master ts")
  case None
  note err = valid_targets_error [OF None, of w g]
  have nb: "\<not> (\<exists>x \<in> set ts. target_bad master x)"
    using None validate_targets_bad [of master ts] by simp
  have n1: "optimize_drop_with_angle_targets w (angle_target_search w g) master ts
              \<noteq> Inl (TargetExceedsParent b u d)" for b u d
    using err [of "TargetExceedsParent b u d"] by auto
  have n2: "optimize_drop_with_angle_targets w (angle_target_search w g) master ts
              \<noteq> Inl (TargetNegative b)" for b
    using err [of "TargetNegative b"] by auto
  have r1: "\<not> (\<exists>pre post. ts = pre @ (a, t) # post \<and> (\<forall>x \<in> set pre. \<not> target_bad master x)
             \<and> int (count_list master a) < t \<and> c = int (count_list master a))"
    using None validate_targets_exceeds_iff [of master ts a t c] by simp
  have r2: "\<not> (\<exists>pre u post. ts = pre @ (a, u) # post \<and> (\<forall>x \<in> set pre. \<not> target_bad master x)
             \<and> u \<le> int (count_list master a) \<and> u < 0)"
    using None validate_targets_negative_iff [of master ts a] by simp
  show ?thesis using n1 n2 r1 r2 nb by blast
next
  case (Some e)
  have res: "optimize_drop_with_angle_targets w' search master ts = Inl e" for w' search
    by (simp add: optimize_drop_with_angle_targets_def Some)
  have b: "\<exists>x \<in> set ts. target_bad master x"
    using Some validate_targets_bad [of master ts] by simp
  have c1: "e = TargetExceedsParent a t c
      \<longleftrightarrow> (\<exists>pre post. ts = pre @ (a, t) # post \<and> (\<forall>x \<in> set pre. \<not> target_bad master x)
             \<and> int (count_list master a) < t \<and> c = int (count_list master a))"
    using validate_targets_exceeds_iff [of master ts a t c] Some by simp
  have c2: "e = TargetNegative a
      \<longleftrightarrow> (\<exists>pre u post. ts = pre @ (a, u) # post \<and> (\<forall>x \<in> set pre. \<not> target_bad master x)
             \<and> u \<le> int (count_list master a) \<and> u < 0)"
    using validate_targets_negative_iff [of master ts a] Some by simp
  have c3: "(\<exists>b u d. e = TargetExceedsParent b u d) \<or> (\<exists>b. e = TargetNegative b)"
    by (rule validate_targets_error_kind [OF Some])
  show ?thesis unfolding res using c1 c2 c3 b by simp
qed

theorem angle_target_errors_witness:
  "(\<exists>x \<in> set [(45, 3)]. target_bad [45, - 45, - 45, 45] x)
   \<and> (\<forall>w search. optimize_drop_with_angle_targets w search [45, - 45, - 45, 45] [(45, 3)]
         = Inl (TargetExceedsParent 45 3 2))
   \<and> \<not> (\<exists>x \<in> set [(45, 2)]. target_bad [45, - 45, - 45, 45] x)
   \<and> optimize_drop_with_angle_targets WEIGHTS (angle_target_search WEIGHTS [])
         [45, - 45, - 45, 45] [(45, 2)] \<noteq> Inl (TargetExceedsParent 45 2 2)
   \<and> optimize_drop_with_angle_targets WEIGHTS (angle_target_search WEIGHTS [])
         [45, - 45, - 45, 45] [(45, 2)] \<noteq> Inl (TargetNegative 45)"
proof -
  let ?m = "[45, - 45, - 45, 45] :: sequence"
  have b: "\<exists>x \<in> set [(45, 3)]. target_bad ?m x"
    by (simp add: target_bad_def)
  have g: "\<not> (\<exists>x \<in> set [(45, 2)]. target_bad ?m x)"
    by (simp add: target_bad_def)
  have d: "\<exists>pre post. [(45, 3)] = pre @ (45, 3) # post \<and> (\<forall>x \<in> set pre. \<not> target_bad ?m x)
             \<and> int (count_list ?m 45) < 3 \<and> 2 = int (count_list ?m 45)"
    by (intro exI [of _ "[]"]) simp
  note t1 = angle_target_errors [of WEIGHTS "[]" ?m "[(45, 3)]" 45 3 2]
  from t1 d have e1: "optimize_drop_with_angle_targets WEIGHTS (angle_target_search WEIGHTS [])
         ?m [(45, 3)] = Inl (TargetExceedsParent 45 3 2)"
    by blast
  from t1 b have "\<forall>w search. optimize_drop_with_angle_targets w search ?m [(45, 3)]
         = optimize_drop_with_angle_targets WEIGHTS (angle_target_search WEIGHTS []) ?m [(45, 3)]"
    by blast
  then have r1: "\<forall>w search. optimize_drop_with_angle_targets w search ?m [(45, 3)]
         = Inl (TargetExceedsParent 45 3 2)"
    unfolding e1 .
  from angle_target_errors [of WEIGHTS "[]" ?m "[(45, 2)]" 45 2 2] g
  have r2: "optimize_drop_with_angle_targets WEIGHTS (angle_target_search WEIGHTS [])
         ?m [(45, 2)] \<noteq> Inl (TargetExceedsParent 45 2 2)"
     "optimize_drop_with_angle_targets WEIGHTS (angle_target_search WEIGHTS [])
         ?m [(45, 2)] \<noteq> Inl (TargetNegative 45)"
    by blast+
  from b r1 g r2 show ?thesis by blast
qed

text \<open>
  C7. The claim is made for every parent sequence. For the empty parent the target map
  is empty, no drop is needed, and the zero-drop return evaluates the parent, which
  raises IndexError.
\<close>

theorem same_targets_empty_parent_counterexample:
  "optimize_drop_with_angle_targets WEIGHTS (\<lambda>m t d. Inl IndexError) [] [] = Inl IndexError"
  by (simp add: optimize_drop_with_angle_targets_def initial_drops_needed_def calculate_fitness_def py_get_def)

text \<open>
  C7, amended. For every non-empty parent sequence, a target map that gives each of its
  angles the parent's own count returns the parent unchanged, the score that
  \<open>calculate_fitness\<close> reports for the parent, and an empty removal map, whatever the
  search would do.
\<close>

theorem same_targets_return_parent:
  assumes "master \<noteq> []" "\<forall>(a, t) \<in> set ts. t = int (count_list master a)"
  shows "\<exists>sc bd. calculate_fitness w master = Inr (sc, bd)
           \<and> optimize_drop_with_angle_targets w search master ts = Inr (master, sc, [])"
proof -
  from calculate_fitness_returns [OF assms(1), of w] obtain sc bd
    where f: "calculate_fitness w master = Inr (sc, bd)" by blast
  have v: "validate_targets master ts = None"
    unfolding validate_targets_None using assms(2) by auto
  have "optimize_drop_with_angle_targets w search master ts = Inr (master, sc, [])"
    by (simp add: optimize_drop_with_angle_targets_def v initial_drops_needed_zero [OF assms(2)] f)
  with f show ?thesis by blast
qed

theorem same_targets_return_parent_witness:
  "[45, - 45, - 45, 45] \<noteq> ([] :: sequence)
   \<and> int (count_list ([45, - 45, - 45, 45] :: sequence) 45) = 2
   \<and> int (count_list ([45, - 45, - 45, 45] :: sequence) (- 45)) = 2
   \<and> (\<forall>search. \<exists>sc bd. calculate_fitness WEIGHTS [45, - 45, - 45, 45] = Inr (sc, bd)
           \<and> optimize_drop_with_angle_targets WEIGHTS search [45, - 45, - 45, 45]
                [(45, 2), (- 45, 2)] = Inr ([45, - 45, - 45, 45], sc, []))"
proof -
  have ne: "[45, - 45, - 45, 45] \<noteq> ([] :: sequence)" by simp
  have eq: "\<forall>(a, t) \<in> set [(45, 2), (- 45, 2)]. t = int (count_list ([45, - 45, - 45, 45] :: sequence) a)"
    by simp
  from same_targets_return_parent [OF ne eq, of WEIGHTS] ne show ?thesis by simp
qed

section \<open>Properties of the multi-zone orchestrator\<close>

lemma visit_neighbors_result:
  "visit_neighbors nbs (V, Q) = (V', Q') \<Longrightarrow>
     V' = V \<union> set nbs \<and> set Q' = set Q \<union> (set nbs - V) \<and> length Q' \<ge> length Q
     \<and> (V' = V \<longrightarrow> Q' = Q)"
proof (induction nbs arbitrary: V Q)
  case Nil
  then show ?case by simp
next
  case (Cons a nbs)
  show ?case
  proof (cases "a \<in> V")
    case True
    with Cons.prems have "visit_neighbors nbs (V, Q) = (V', Q')" by simp
    from Cons.IH [OF this] True show ?thesis by auto
  next
    case False
    with Cons.prems have "visit_neighbors nbs (insert a V, Q @ [a]) = (V', Q')" by simp
    from Cons.IH [OF this] False show ?thesis by auto
  qed
qed


lemma fold_invariant:
  assumes "P s" "\<And>x s. x \<in> set xs \<Longrightarrow> P s \<Longrightarrow> P (f x s)"
  shows "P (fold f xs s)"
  using assms by (induction xs arbitrary: s) auto

lemma graph_ok_update:
  assumes "graph_ok n g" "i < n" "j < n"
  shows "graph_ok n (g[i := g ! i @ [j]])"
proof -
  have "\<forall>k \<in> set (g ! i @ [j]). k < n"
    using assms by (auto simp: graph_ok_def)
  then show ?thesis
    using assms(1) unfolding graph_ok_def
    by (auto dest!: set_update_subset_insert [THEN subsetD])
qed

lemma graph_ok_add_neighbor_pair:
  assumes "graph_ok n g" "i < n" "j < n"
  shows "graph_ok n (add_neighbor_pair i j g)"
  unfolding add_neighbor_pair_def Let_def
  by (intro graph_ok_update assms)

lemma graph_ok_compute_neighbors: "graph_ok (length bounds) (compute_neighbors bounds)"
  unfolding compute_neighbors_def Let_def
proof (rule fold_invariant, goal_cases)
  case 1
  show ?case by (simp add: graph_ok_def)
next
  case (2 i nb)
  then have i: "i < length bounds" by simp
  show ?case
  proof (rule fold_invariant, goal_cases)
    case 1
    from 2 show ?case by simp
  next
    case (2 j nb')
    then have "j < length bounds" by simp
    with 2 i show ?case by (simp add: graph_ok_add_neighbor_pair)
  qed
qed

lemma bfs_loop_reachable:
  assumes "graph_ok n g" "V \<subseteq> {..<n}" "set Q \<subseteq> V"
    and "\<forall>v \<in> V - set Q. graph_edges g `` {v} \<subseteq> V"
  shows "bfs_loop g V Q = Inr ((graph_edges g)\<^sup>* `` V)"
  using assms
proof (induction g V Q rule: bfs_loop.induct)
  case (1 g visited)
  have "(graph_edges g)\<^sup>* `` visited \<subseteq> visited"
  proof
    fix y assume "y \<in> (graph_edges g)\<^sup>* `` visited"
    then obtain x where "x \<in> visited" "(x, y) \<in> (graph_edges g)\<^sup>*" by blast
    from this(2,1) show "y \<in> visited"
      by (induction rule: rtrancl_induct) (use 1 in auto)
  qed
  then have "(graph_edges g)\<^sup>* `` visited = visited" by blast
  then show ?case by simp
next
  case (2 g visited current queue)
  from 2(2,3,4) have c: "current < length g" "current \<in> visited"
    by (auto simp: graph_ok_def)
  obtain V' Q' where v: "visit_neighbors (g ! current) (visited, queue) = (V', Q')"
    by (cases "visit_neighbors (g ! current) (visited, queue)")
  note r = visit_neighbors_result [OF v]
  have E: "graph_edges g `` {current} = set (g ! current)"
    using c by (auto simp: graph_edges_def)
  have nb: "set (g ! current) \<subseteq> {..<n}"
    using 2(2) c(1) nth_mem [OF c(1)] by (auto simp: graph_ok_def)
  have a1: "V' \<subseteq> {..<n}" using r 2(3) nb by auto
  have a2: "set Q' \<subseteq> V'" using r 2(4) by auto
  have a3: "\<forall>v \<in> V' - set Q'. graph_edges g `` {v} \<subseteq> V'"
  proof
    fix v assume "v \<in> V' - set Q'"
    with r have vv: "v \<in> visited" "v \<notin> set queue" by auto
    show "graph_edges g `` {v} \<subseteq> V'"
    proof (cases "v = current")
      case True
      with E r show ?thesis by auto
    next
      case False
      with vv 2(5) have "graph_edges g `` {v} \<subseteq> visited" by auto
      with r show ?thesis by auto
    qed
  qed
  have "bfs_loop g V' Q' = Inr ((graph_edges g)\<^sup>* `` V')"
    using "2.IH" [OF c(1) v [symmetric] 2(2) a1 a2 a3] .
  moreover have "(graph_edges g)\<^sup>* `` V' = (graph_edges g)\<^sup>* `` visited"
  proof
    have "V' \<subseteq> (graph_edges g)\<^sup>* `` visited"
    proof
      fix y assume "y \<in> V'"
      with r have "y \<in> visited \<or> y \<in> set (g ! current)" by auto
      then show "y \<in> (graph_edges g)\<^sup>* `` visited"
      proof
        assume "y \<in> visited" then show ?thesis by auto
      next
        assume "y \<in> set (g ! current)"
        with E have "(current, y) \<in> graph_edges g" by auto
        with c(2) show ?thesis by auto
      qed
    qed
    then have "(graph_edges g)\<^sup>* `` V' \<subseteq> (graph_edges g)\<^sup>* `` ((graph_edges g)\<^sup>* `` visited)"
      by (rule Image_mono [OF subset_refl])
    also have "\<dots> = (graph_edges g)\<^sup>* `` visited"
      by (auto intro: rtrancl_trans)
    finally show "(graph_edges g)\<^sup>* `` V' \<subseteq> (graph_edges g)\<^sup>* `` visited" .
    from r have "visited \<subseteq> V'" by auto
    then show "(graph_edges g)\<^sup>* `` visited \<subseteq> (graph_edges g)\<^sup>* `` V'"
      by (rule Image_mono [OF subset_refl])
  qed
  ultimately show ?case using c(1) v by simp
qed

lemma fold_max_in_set: "fold max xs (a :: int) \<in> set (a # xs)"
proof (induction xs arbitrary: a)
  case Nil
  show ?case by simp
next
  case (Cons x xs)
  from Cons.IH [of "max x a"] show ?case by (auto simp: max_def split: if_splits)
qed

lemma list_index_less: "x \<in> set xs \<Longrightarrow> list_index xs x < length xs"
  unfolding list_index_def by (induction xs) auto

lemma init_multi_zone_geometry:
  assumes "init_multi_zone config (Some bounds) = Inr mz" "length bounds = length config"
  shows "config \<noteq> []" "zones_config mz = config" "root_index mz < length config"
    "zone_neighbors mz = compute_neighbors bounds"
proof -
  from assms(1) show ne: "config \<noteq> []"
    by (auto simp: init_multi_zone_def Let_def split: if_splits)
  let ?totals = "map (\<lambda>z. sum_list (map snd z)) config"
  from ne have t: "?totals \<noteq> []" by simp
  from assms(1) t have mz: "mz = \<lparr>zones_config = config,
                   zone_totals = ?totals,
                   root_index = list_index ?totals (fold max (tl ?totals) (hd ?totals)),
                   zone_neighbors = (if bounds \<noteq> [] \<and> length bounds = length config
                                  then compute_neighbors bounds else [])\<rparr>"
    by (simp add: init_multi_zone_def Let_def)
  show "zones_config mz = config" by (simp add: mz)
  have "fold max (tl ?totals) (hd ?totals) \<in> set (hd ?totals # tl ?totals)"
    by (rule fold_max_in_set)
  with t have "fold max (tl ?totals) (hd ?totals) \<in> set ?totals"
    by (metis list.collapse)
  from list_index_less [OF this] show "root_index mz < length config" by (simp add: mz)
  from ne assms(2) show "zone_neighbors mz = compute_neighbors bounds"
    by (auto simp: mz)
qed

text \<open>
  C5. For a multi-zone input with geometry (bounds given, one rectangle per zone): if
  some zone is not reachable from the root in the neighbour graph, \<open>optimize_all\<close>
  returns the failure value with \<open>success = False\<close>, \<open>disconnected_zones\<close> the
  unreachable indices in ascending order and an empty \<open>zones\<close> list, whatever the
  pipeline of optimizations would do: it is not run.
\<close>

theorem disconnected_zones_reported:
  assumes "init_multi_zone config (Some bounds) = Inr mz" "length bounds = length config"
    and "\<exists>i < length config. (root_index mz, i) \<notin> (graph_edges (zone_neighbors mz))\<^sup>*"
  shows "optimize_all pipeline mz =
           Inr (Failure \<lparr>success = False,
                  disconnected_zones =
                    [i \<leftarrow> [0..<length config].
                       (root_index mz, i) \<notin> (graph_edges (zone_neighbors mz))\<^sup>*],
                  zones = [], transitions = [], failure_root_index = root_index mz,
                  drop_off_tree = [], neighbor_graph = zone_neighbors mz\<rparr>)"
proof -
  note g = init_multi_zone_geometry [OF assms(1,2)]
  let ?g = "zone_neighbors mz" and ?r = "root_index mz" and ?n = "length config"
  have ok: "graph_ok ?n ?g" using graph_ok_compute_neighbors [of bounds] g(4) assms(2) by simp
  then have nonempty: "?g \<noteq> []" using g(1) by (auto simp: graph_ok_def)
  have bfs: "bfs_loop ?g {?r} [?r] = Inr ((graph_edges ?g)\<^sup>* `` {?r})"
    by (rule bfs_loop_reachable [OF ok]) (use g(3) in auto)
  have flt: "[i \<leftarrow> [0..<?n]. i \<notin> (graph_edges ?g)\<^sup>* `` {?r}] =
             [i \<leftarrow> [0..<?n]. (?r, i) \<notin> (graph_edges ?g)\<^sup>*]"
    by (rule filter_cong) auto
  from assms(3) obtain i where "i < ?n" "(?r, i) \<notin> (graph_edges ?g)\<^sup>*" by blast
  then have "i \<in> set [i \<leftarrow> [0..<?n]. (?r, i) \<notin> (graph_edges ?g)\<^sup>*]" by simp
  then have ne: "[i \<leftarrow> [0..<?n]. (?r, i) \<notin> (graph_edges ?g)\<^sup>*] \<noteq> []"
    by (metis empty_iff list.set(1))
  have cc: "check_connectivity mz =
              Inr (False, [i \<leftarrow> [0..<?n]. (?r, i) \<notin> (graph_edges ?g)\<^sup>*])"
    using nonempty ne by (simp add: check_connectivity_def g(2) bfs flt Let_def del: bfs_loop.simps)
  show ?thesis
    using nonempty by (simp add: optimize_all_def cc)
qed

lemma closed_set_unreachable:
  assumes "r \<in> V" "E `` V \<subseteq> V" "i \<notin> V"
  shows "(r, i) \<notin> E\<^sup>*"
proof
  assume "(r, i) \<in> E\<^sup>*"
  then have "i \<in> V" by (induction rule: rtrancl_induct) (use assms in auto)
  with assms(3) show False by simp
qed

lemma sample_init: "init_multi_zone sample_zones (Some sample_bounds) = Inr sample_multi_zone"
  by code_simp

lemma graph_edges_by_index:
  "graph_edges g = (\<Union>i \<in> set [0..<length g]. {i} \<times> set (g ! i))"
  by (auto simp: graph_edges_def)

lemma sample_edges: "graph_edges [[1], [0], []] = {(0, 1), (1, 0)}"
  by (simp add: graph_edges_by_index upt_rec insert_commute)

lemma sample_unreachable: "(0, 2) \<notin> (graph_edges [[1], [0], []])\<^sup>*"
  unfolding sample_edges by (rule closed_set_unreachable [where V = "{0, 1}"]) auto

lemma sample_filter:
  "[i \<leftarrow> [0..<length sample_zones].
      (root_index sample_multi_zone, i) \<notin> (graph_edges (zone_neighbors sample_multi_zone))\<^sup>*] = [2]"
proof -
  have "(0, 1) \<in> (graph_edges [[1], [0], []])\<^sup>*" unfolding sample_edges by blast
  moreover have "[0..<length sample_zones] = [0, 1, 2]"
    by (simp add: sample_zones_def upt_rec)
  ultimately show ?thesis using sample_unreachable by (simp add: sample_multi_zone_def)
qed

theorem disconnected_zones_reported_witness:
  "init_multi_zone sample_zones (Some sample_bounds) = Inr sample_multi_zone
   \<and> length sample_bounds = length sample_zones
   \<and> (\<exists>i < length sample_zones.
         (root_index sample_multi_zone, i) \<notin> (graph_edges (zone_neighbors sample_multi_zone))\<^sup>*)
   \<and> (\<forall>pipeline :: multi_zone \<Rightarrow> py_error + unit.
         optimize_all pipeline sample_multi_zone =
           Inr (Failure \<lparr>success = False, disconnected_zones = [2], zones = ([] :: unit list),
                  transitions = [], failure_root_index = 0, drop_off_tree = [],
                  neighbor_graph = [[1], [0], []]\<rparr>))"
proof -
  have l: "length sample_bounds = length sample_zones"
    by (simp add: sample_bounds_def sample_zones_def)
  have "(root_index sample_multi_zone, 2) \<notin> (graph_edges (zone_neighbors sample_multi_zone))\<^sup>*"
    using sample_unreachable by (simp add: sample_multi_zone_def)
  moreover have "2 < length sample_zones" by (simp add: sample_zones_def)
  ultimately have u: "\<exists>i < length sample_zones.
         (root_index sample_multi_zone, i) \<notin> (graph_edges (zone_neighbors sample_multi_zone))\<^sup>*"
    by blast
  have r: "root_index sample_multi_zone = 0" "zone_neighbors sample_multi_zone = [[1], [0], []]"
    by (simp_all add: sample_multi_zone_def)
  have "optimize_all pipeline sample_multi_zone =
           Inr (Failure \<lparr>success = False, disconnected_zones = [2], zones = ([] :: unit list),
                  transitions = [], failure_root_index = 0, drop_off_tree = [],
                  neighbor_graph = [[1], [0], []]\<rparr>)" for pipeline :: "multi_zone \<Rightarrow> py_error + unit"
    using disconnected_zones_reported [OF sample_init l u, of pipeline]
    unfolding sample_filter unfolding r .
  with sample_init l u show ?thesis by blast
qed

end
